theory Spec2Isabelle
  imports Complex_Main "HOL-Library.Product_Lexorder"
begin

section \<open>Conversation analysis engine (analyze\_conversations.py)\<close>

text \<open>
  A shallow embedding of \<^verbatim>\<open>ConversationAnalyzer\<close>. Every pass of the class is a HOL
  function of the archive; an exception of the Python is a value \<open>Inl e\<close>. What the
  Python takes from its interpreter and its host (the local time zone, \<^verbatim>\<open>str.lower\<close>,
  \<^verbatim>\<open>repr\<close>, the optional \<^verbatim>\<open>jieba\<close> package) is a field of the record \<open>host\<close>,
  so that the general theorems hold on every host.
\<close>

subsection \<open>Python strings and numbers\<close>

text \<open>
  A Python \<^verbatim>\<open>str\<close> is a sequence of Unicode code points and \<^verbatim>\<open>len\<close> counts code
  points, so a string is a list of code points here (a HOL \<open>char\<close> is a byte).
  \<open>ascii\<close> turns an ASCII literal into that form.
\<close>

type_synonym ustring = "nat list"

definition ascii :: "string \<Rightarrow> ustring" where
  "ascii s = map of_char s"

text \<open>\<^verbatim>\<open>sep.join(xs)\<close>.\<close>

fun join :: "ustring \<Rightarrow> ustring list \<Rightarrow> ustring" where
  "join sep [] = []"
| "join sep [x] = x"
| "join sep (x # y # ys) = x @ sep @ join sep (y # ys)"

text \<open>\<^verbatim>\<open>sub in text\<close> on strings: \<open>sub\<close> occurs as a contiguous slice of \<open>text\<close>.\<close>

fun startswith :: "ustring \<Rightarrow> ustring \<Rightarrow> bool" where
  "startswith text [] = True"
| "startswith [] (c # sub) = False"
| "startswith (d # text) (c # sub) = (d = c \<and> startswith text sub)"

fun py_in :: "ustring \<Rightarrow> ustring \<Rightarrow> bool" where
  "py_in sub [] = (sub = [])"
| "py_in sub (d # text) = (startswith (d # text) sub \<or> py_in sub text)"

text \<open>
  A Python \<^verbatim>\<open>float\<close> is an IEEE binary64 number, here the real number it denotes.
  \<open>to_double\<close> rounds a real to the nearest such number, a tie going to the even
  significand: within the binade \<open>2 ^ e \<le> \<bar>x\<bar> < 2 ^ (e + 1)\<close> the doubles are the
  multiples of \<open>2 ^ (e - 52)\<close>, and below \<open>2 ^ - 1022\<close> the multiples of
  \<open>2 ^ - 1074\<close>. Magnitudes from \<open>2 ^ 1024\<close> on, where Python overflows, are
  outside the model: the quotients below are quotients of counts of characters held in
  memory.
\<close>

text \<open>The nearest integer, a tie going to the even one.\<close>

definition rne :: "real \<Rightarrow> int" where
  "rne x =
     (if x - of_int \<lfloor>x\<rfloor> < 1 / 2 then \<lfloor>x\<rfloor>
      else if 1 / 2 < x - of_int \<lfloor>x\<rfloor> then \<lfloor>x\<rfloor> + 1
      else if even \<lfloor>x\<rfloor> then \<lfloor>x\<rfloor> else \<lfloor>x\<rfloor> + 1)"

definition pow2 :: "int \<Rightarrow> real" where
  "pow2 e = (if 0 \<le> e then 2 ^ nat e else 1 / 2 ^ nat (- e))"

text \<open>
  The exponent of the binade of a positive number, found by halving or doubling; the
  number of steps is bounded by the exponent range of binary64.
\<close>

fun exponent_down :: "nat \<Rightarrow> real \<Rightarrow> int" where
  "exponent_down 0 x = 0"
| "exponent_down (Suc n) x = (if 2 \<le> x then exponent_down n (x / 2) + 1 else 0)"

fun exponent_up :: "nat \<Rightarrow> real \<Rightarrow> int" where
  "exponent_up 0 x = 0"
| "exponent_up (Suc n) x = (if x < 1 then exponent_up n (x * 2) - 1 else 0)"

definition binade :: "real \<Rightarrow> int" where
  "binade x = (if 1 \<le> x then exponent_down 1023 x else exponent_up 1022 x)"

definition to_double :: "real \<Rightarrow> real" where
  "to_double x =
     (if x = 0 then 0
      else sgn x * of_int (rne (\<bar>x\<bar> / pow2 (binade \<bar>x\<bar> - 52))) * pow2 (binade \<bar>x\<bar> - 52))"

text \<open>
  \<^verbatim>\<open>x / y\<close> and \<^verbatim>\<open>x * y\<close> on floats, and \<^verbatim>\<open>a / b\<close> on two ints: the exact result,
  rounded once.
\<close>

definition float_div :: "real \<Rightarrow> real \<Rightarrow> real" where
  "float_div x y = to_double (x / y)"

definition float_mul :: "real \<Rightarrow> real \<Rightarrow> real" where
  "float_mul x y = to_double (x * y)"

text \<open>
  \<^verbatim>\<open>round(x, n)\<close> on a float \<open>x\<close>: the exact value of \<open>x\<close> is rounded to \<open>n\<close>
  decimals, a tie going to the even digit. The value here is that decimal; Python's
  result is the double nearest to it, which prints as that decimal and compares with
  an integer as the decimal does.
\<close>

definition py_round :: "nat \<Rightarrow> real \<Rightarrow> real" where
  "py_round n x = of_int (rne (x * 10 ^ n)) / 10 ^ n"

subsection \<open>The archive\<close>

text \<open>
  The values \<^verbatim>\<open>json.load\<close> produces. A JSON object is its list of items in
  insertion order (keys distinct). Numbers are Python ints or finite floats.
\<close>

datatype json =
    JNull
  | JBool bool
  | JInt int
  | JFloat real
  | JStr ustring
  | JList "json list"
  | JDict "(ustring \<times> json) list"

text \<open>\<^verbatim>\<open>bool(v)\<close>, the test of \<^verbatim>\<open>if v\<close>.\<close>

fun truthy :: "json \<Rightarrow> bool" where
  "truthy JNull = False"
| "truthy (JBool b) = b"
| "truthy (JInt i) = (i \<noteq> 0)"
| "truthy (JFloat x) = (x \<noteq> 0)"
| "truthy (JStr s) = (s \<noteq> [])"
| "truthy (JList xs) = (xs \<noteq> [])"
| "truthy (JDict kvs) = (kvs \<noteq> [])"

text \<open>
  \<^verbatim>\<open>str(v)\<close>: a string is its own string form, any other value is rendered by
  \<^verbatim>\<open>repr\<close>, which belongs to the host.
\<close>

fun py_str :: "(json \<Rightarrow> ustring) \<Rightarrow> json \<Rightarrow> ustring" where
  "py_str rp (JStr s) = s"
| "py_str rp v = rp v"

text \<open>
  A message is the dict \<^verbatim>\<open>{"author": {"role": ...}, "content": ...}\<close>; a key that is
  absent is \<open>None\<close>. A node holds an optional message: \<open>None\<close> stands for a node
  without the key, with a null message or with the empty dict, the three cases that
  \<^verbatim>\<open>if not message\<close> skips.
\<close>

record author =
  role :: "ustring option"

record message =
  author :: "author option"
  content :: "json option"

record node =
  message :: "message option"

text \<open>
  \<^verbatim>\<open>create_time\<close> is a Unix timestamp in seconds; the key can be absent, and it can be
  present with the value null.
\<close>

datatype ctime = Absent | Null | Num real

record conversation =
  conversation_id :: "ustring option"
  title :: "ustring option"
  create_time :: ctime
  mapping :: "(ustring \<times> node) list"

text \<open>\<open>mapping\<close> is the list of items of the dict, \<open>[]\<close> also when the key is absent.\<close>

datatype error = TypeError | KeyError | OverflowError | ValueError | OSError

subsection \<open>Text extraction\<close>

text \<open>
  \<^verbatim>\<open>extract_text_from_message\<close>. The first test, \<^verbatim>\<open>not message or "content" not in
  message\<close>, is the case \<open>content m = None\<close>: a message that is falsy has no content
  key.
\<close>

definition stringify :: "(json \<Rightarrow> ustring) \<Rightarrow> json \<Rightarrow> ustring" where
  "stringify rp c = (if truthy c then py_str rp c else [])"

definition extract_text_from_message :: "(json \<Rightarrow> ustring) \<Rightarrow> message \<Rightarrow> ustring" where
  "extract_text_from_message rp m =
     (case content m of
        None \<Rightarrow> []
      | Some c \<Rightarrow>
          (case c of
             JDict kvs \<Rightarrow>
               (case map_of kvs (ascii ''parts'') of
                  Some (JList parts) \<Rightarrow> join (ascii '' '') (map (py_str rp) (filter truthy parts))
                | _ \<Rightarrow> stringify rp c)
           | _ \<Rightarrow> stringify rp c))"

text \<open>
  The contract of the specification, in its words: when a parts list exists, the
  fragments that are not empty (not falsy), in their string forms, joined by single
  spaces; otherwise the string form of the content when it is truthy; otherwise the
  empty string.
\<close>

fun parts_list :: "json \<Rightarrow> json list option" where
  "parts_list (JDict kvs) =
     (case map_of kvs (ascii ''parts'') of Some (JList parts) \<Rightarrow> Some parts | _ \<Rightarrow> None)"
| "parts_list v = None"

definition extractText_spec :: "(json \<Rightarrow> ustring) \<Rightarrow> json option \<Rightarrow> ustring" where
  "extractText_spec rp c =
     (if c = None then []
      else if parts_list (the c) \<noteq> None
        then join (ascii '' '') (map (py_str rp) (filter truthy (the (parts_list (the c)))))
      else if truthy (the c) then py_str rp (the c)
      else [])"

subsection \<open>Local time\<close>

text \<open>
  A naive \<^verbatim>\<open>datetime\<close> is a point of the wall clock: the seconds since
  1970-01-01 00:00 of the proleptic Gregorian calendar. Its date, hour and weekday are
  functions of that number: the hour by division, the weekday from the day number
  (day 0 was a Thursday, weekday 3 with Monday 0), the date by the usual conversion of
  a day number to year, month and day over 400-year eras that begin on 1 March.
\<close>

datatype datetime = Datetime (naive: real)

definition dt_days :: "datetime \<Rightarrow> int" where
  "dt_days d = \<lfloor>naive d / 86400\<rfloor>"

definition dt_hour :: "datetime \<Rightarrow> int" where
  "dt_hour d = \<lfloor>naive d / 3600\<rfloor> mod 24"

definition dt_weekday :: "datetime \<Rightarrow> int" where
  "dt_weekday d = (dt_days d + 3) mod 7"

definition year_of_era :: "int \<Rightarrow> int" where
  "year_of_era doe = (doe - doe div 1460 + doe div 36524 - doe div 146096) div 365"

definition day_of_year :: "int \<Rightarrow> int \<Rightarrow> int" where
  "day_of_year doe yoe = doe - (365 * yoe + yoe div 4 - yoe div 100)"

definition month_index :: "int \<Rightarrow> int" where
  "month_index doy = (5 * doy + 2) div 153"

definition civil_month :: "int \<Rightarrow> int" where
  "civil_month mp = (if mp < 10 then mp + 3 else mp - 9)"

definition civil_day :: "int \<Rightarrow> int \<Rightarrow> int" where
  "civil_day doy mp = doy - (153 * mp + 2) div 5 + 1"

definition civil_year :: "int \<Rightarrow> int \<Rightarrow> int \<Rightarrow> int" where
  "civil_year era yoe m = yoe + era * 400 + (if m \<le> 2 then 1 else 0)"

definition civil_of_era :: "int \<Rightarrow> int \<Rightarrow> int \<times> int \<times> int" where
  "civil_of_era era doe =
     (civil_year era (year_of_era doe)
        (civil_month (month_index (day_of_year doe (year_of_era doe)))),
      civil_month (month_index (day_of_year doe (year_of_era doe))),
      civil_day (day_of_year doe (year_of_era doe))
        (month_index (day_of_year doe (year_of_era doe))))"

definition civil_from_days :: "int \<Rightarrow> int \<times> int \<times> int" where
  "civil_from_days z = civil_of_era ((z + 719468) div 146097) ((z + 719468) mod 146097)"

text \<open>\<^verbatim>\<open>dt.date()\<close> as (year, month, day).\<close>

definition dt_date :: "datetime \<Rightarrow> int \<times> int \<times> int" where
  "dt_date d = civil_from_days (dt_days d)"

text \<open>
  The month key \<^verbatim>\<open>f"{dt.year}-{dt.month:02d}"\<close> and \<^verbatim>\<open>strftime("%Y-%m")\<close> are both
  the pair (year, month) here: for the four-digit years of an export the two strings
  are equal, and their order as strings is the order of the pairs.
\<close>

definition month_key :: "datetime \<Rightarrow> int \<times> int" where
  "month_key d = (fst (dt_date d), fst (snd (dt_date d)))"

subsection \<open>The host\<close>

text \<open>
  \<open>fromtimestamp\<close> is \<^verbatim>\<open>datetime.fromtimestamp\<close> in the local zone of the host; it
  raises on a timestamp outside the range of the platform. \<open>lower\<close> is
  \<^verbatim>\<open>str.lower\<close>, \<open>repr\<close> is \<^verbatim>\<open>repr\<close>. \<open>extract_tags\<close> is
  \<^verbatim>\<open>jieba.analyse.extract_tags(text, topK=k, withWeight=True)\<close>, reduced to the words
  it returns: \<open>None\<close> when the package is not installed (\<^verbatim>\<open>JIEBA_AVAILABLE\<close> false),
  and a call returns \<open>None\<close> when it raises.
\<close>

record host =
  fromtimestamp :: "real \<Rightarrow> error + datetime"
  lower :: "ustring \<Rightarrow> ustring"
  repr :: "json \<Rightarrow> ustring"
  extract_tags :: "(ustring \<Rightarrow> nat \<Rightarrow> ustring list option) option"

subsection \<open>Counters and traversal\<close>

text \<open>
  A \<^verbatim>\<open>defaultdict(int)\<close> is the list of its items in insertion order;
  \<open>add_count k n\<close> is \<^verbatim>\<open>d[k] += n\<close> and \<open>get_count k\<close> reads \<^verbatim>\<open>d[k]\<close>.
\<close>

type_synonym 'k counts = "('k \<times> nat) list"

fun add_count :: "'k \<Rightarrow> nat \<Rightarrow> 'k counts \<Rightarrow> 'k counts" where
  "add_count k n [] = [(k, n)]"
| "add_count k n ((k', c) # d) =
     (if k' = k then (k', c + n) # d else (k', c) # add_count k n d)"

definition get_count :: "'k \<Rightarrow> 'k counts \<Rightarrow> nat" where
  "get_count k d = (case map_of d k of None \<Rightarrow> 0 | Some c \<Rightarrow> c)"

text \<open>\<^verbatim>\<open>max(d.items(), key=lambda x: x[1])\<close>: the first item with the largest count.\<close>

fun max_item :: "'k counts \<Rightarrow> ('k \<times> nat) option" where
  "max_item [] = None"
| "max_item (x # xs) =
     (case max_item xs of
        None \<Rightarrow> Some x
      | Some y \<Rightarrow> if snd x < snd y then Some y else Some x)"

text \<open>
  The body shared by every pass: the nodes of \<^verbatim>\<open>mapping.items()\<close> without the node
  \<^verbatim>\<open>"client-created-root"\<close> and without the nodes whose message is missing.
\<close>

definition messages_of :: "conversation \<Rightarrow> message list" where
  "messages_of conv =
     List.map_filter
       (\<lambda>(node_id, nd). if node_id = ascii ''client-created-root'' then None else message nd)
       (mapping conv)"

text \<open>\<^verbatim>\<open>message.get("author", {}).get("role")\<close>.\<close>

definition get_role :: "message \<Rightarrow> ustring option" where
  "get_role m = (case author m of None \<Rightarrow> None | Some a \<Rightarrow> role a)"

definition is_user :: "message \<Rightarrow> bool" where
  "is_user m = (get_role m = Some (ascii ''user''))"

definition is_assistant :: "message \<Rightarrow> bool" where
  "is_assistant m = (get_role m = Some (ascii ''assistant''))"

text \<open>\<^verbatim>\<open>create_time = conv.get("create_time")\<close> under \<^verbatim>\<open>if create_time\<close>.\<close>

fun time_if_truthy :: "ctime \<Rightarrow> real option" where
  "time_if_truthy (Num t) = (if t \<noteq> 0 then Some t else None)"
| "time_if_truthy Null = None"
| "time_if_truthy Absent = None"

subsection \<open>Pass 1: summary statistics\<close>

record stats_acc =
  total_user_chars :: nat
  total_assistant_chars :: nat
  n_messages :: nat
  timestamps :: "datetime list"
  date_counts :: "(int \<times> int \<times> int) counts"
  hour_counts :: "int counts"
  weekday_counts :: "int counts"

definition stats_time :: "host \<Rightarrow> conversation \<Rightarrow> stats_acc \<Rightarrow> error + stats_acc" where
  "stats_time h conv a =
     (case time_if_truthy (create_time conv) of
        None \<Rightarrow> Inr a
      | Some t \<Rightarrow>
          (case fromtimestamp h t of
             Inl e \<Rightarrow> Inl e
           | Inr dt \<Rightarrow>
               Inr (a\<lparr>timestamps := timestamps a @ [dt],
                      date_counts := add_count (dt_date dt) 1 (date_counts a),
                      hour_counts := add_count (dt_hour dt) 1 (hour_counts a),
                      weekday_counts := add_count (dt_weekday dt) 1 (weekday_counts a)\<rparr>)))"

definition stats_message :: "host \<Rightarrow> message \<Rightarrow> stats_acc \<Rightarrow> stats_acc" where
  "stats_message h m a =
     (if is_user m then
        a\<lparr>total_user_chars :=
             total_user_chars a + length (extract_text_from_message (repr h) m),
          n_messages := n_messages a + 1\<rparr>
      else if is_assistant m then
        a\<lparr>total_assistant_chars :=
             total_assistant_chars a + length (extract_text_from_message (repr h) m)\<rparr>
      else a)"

fun stats_loop :: "host \<Rightarrow> conversation list \<Rightarrow> stats_acc \<Rightarrow> error + stats_acc" where
  "stats_loop h [] a = Inr a"
| "stats_loop h (conv # convs) a =
     (case stats_time h conv a of
        Inl e \<Rightarrow> Inl e
      | Inr a' \<Rightarrow> stats_loop h convs (fold (stats_message h) (messages_of conv) a'))"

text \<open>
  \<^verbatim>\<open>(max(timestamps) - min(timestamps)).total_seconds() / 3600\<close>, 0 without
  timestamps: the difference is exact, \<^verbatim>\<open>total_seconds\<close> makes it a float, and the
  division is a float division.
\<close>

fun total_hours :: "datetime list \<Rightarrow> real" where
  "total_hours [] = 0"
| "total_hours (d # ds) =
     float_div (to_double (fold max (map naive ds) (naive d) - fold min (map naive ds) (naive d)))
       3600"

text \<open>The three books of \<^verbatim>\<open>BOOK_SIZES\<close>, by their titles.\<close>

definition BOOK_SIZES :: "(ustring \<times> nat) list" where
  "BOOK_SIZES =
     [([19977, 20307], 200000),
      ([21704, 21033, 27874, 29305], 100000),
      ([23567, 29579, 23376], 20000)]"

record summary_stats =
  total_conversations :: nat
  total_messages :: nat
  total_user_characters :: nat
  total_assistant_characters :: nat
  total_hours_span :: real
  most_active_date :: "(int \<times> int \<times> int) option \<times> nat"
  most_active_hour :: "int option \<times> nat"
  books_equivalent :: "(ustring \<times> real) list"

definition most_active :: "'k counts \<Rightarrow> 'k option \<times> nat" where
  "most_active d = (case max_item d of None \<Rightarrow> (None, 0) | Some (k, c) \<Rightarrow> (Some k, c))"

definition stats_acc0 :: stats_acc where
  "stats_acc0 =
     \<lparr>total_user_chars = 0, total_assistant_chars = 0, n_messages = 0, timestamps = [],
      date_counts = [], hour_counts = [], weekday_counts = []\<rparr>"

definition stats_result :: "nat \<Rightarrow> stats_acc \<Rightarrow> summary_stats" where
  "stats_result n a =
     \<lparr>total_conversations = n,
      total_messages = n_messages a,
      total_user_characters = total_user_chars a,
      total_assistant_characters = total_assistant_chars a,
      total_hours_span = py_round 1 (total_hours (timestamps a)),
      most_active_date = most_active (date_counts a),
      most_active_hour = most_active (hour_counts a),
      books_equivalent =
        map (\<lambda>(book_name, book_size).
               (book_name, py_round 1 (float_div (real (total_assistant_chars a)) (real book_size))))
          BOOK_SIZES\<rparr>"

definition analyze_summary_stats :: "host \<Rightarrow> conversation list \<Rightarrow> error + summary_stats" where
  "analyze_summary_stats h convs =
     (case stats_loop h convs stats_acc0 of
        Inl e \<Rightarrow> Inl e
      | Inr a \<Rightarrow> Inr (stats_result (length convs) a))"

subsection \<open>Pass 2: activity heatmap\<close>

fun heatmap_loop ::
  "host \<Rightarrow> conversation list \<Rightarrow> (int \<times> int) counts \<Rightarrow> error + (int \<times> int) counts" where
  "heatmap_loop h [] hm = Inr hm"
| "heatmap_loop h (conv # convs) hm =
     (case time_if_truthy (create_time conv) of
        None \<Rightarrow> heatmap_loop h convs hm
      | Some t \<Rightarrow>
          (case fromtimestamp h t of
             Inl e \<Rightarrow> Inl e
           | Inr dt \<Rightarrow> heatmap_loop h convs (add_count (dt_hour dt, dt_weekday dt) 1 hm)))"

text \<open>The weekday names, Monday first.\<close>

definition weekday_names :: "ustring list" where
  "weekday_names =
     [[21608, 19968], [21608, 20108], [21608, 19977], [21608, 22235],
      [21608, 20116], [21608, 20845], [21608, 26085]]"

record brain_activity_heatmap =
  heatmap_data :: "(int \<times> int \<times> nat) list"
  hour_distribution :: "int counts"
  weekday_distribution :: "(ustring \<times> nat) list"

definition hour_totals :: "(int \<times> int) counts \<Rightarrow> int counts" where
  "hour_totals hm = fold (\<lambda>((hr, wd), c). add_count hr c) hm []"

definition weekday_totals :: "(int \<times> int) counts \<Rightarrow> int counts" where
  "weekday_totals hm = fold (\<lambda>((hr, wd), c). add_count wd c) hm []"

definition heatmap_result :: "(int \<times> int) counts \<Rightarrow> brain_activity_heatmap" where
  "heatmap_result hm =
     \<lparr>heatmap_data = map (\<lambda>((hr, wd), c). (hr, wd, c)) hm,
      hour_distribution = hour_totals hm,
      weekday_distribution =
        map (\<lambda>i. (weekday_names ! i, get_count (int i) (weekday_totals hm))) [0..<7]\<rparr>"

definition analyze_brain_activity_heatmap ::
  "host \<Rightarrow> conversation list \<Rightarrow> error + brain_activity_heatmap" where
  "analyze_brain_activity_heatmap h convs =
     (case heatmap_loop h convs [] of
        Inl e \<Rightarrow> Inl e
      | Inr hm \<Rightarrow> Inr (heatmap_result hm))"

subsection \<open>Pass 4: engagement depth\<close>

text \<open>The turns of a conversation: its messages of role \<^verbatim>\<open>"user"\<close>.\<close>

definition user_message_count :: "conversation \<Rightarrow> nat" where
  "user_message_count conv = length (filter is_user (messages_of conv))"

text \<open>\<^verbatim>\<open>d.get(key, "")\<close> on a string field.\<close>

definition get_or_empty :: "ustring option \<Rightarrow> ustring" where
  "get_or_empty v = (case v of None \<Rightarrow> [] | Some s \<Rightarrow> s)"

text \<open>
  The loop appends to \<^verbatim>\<open>turn_counts\<close> and to \<^verbatim>\<open>conversation_turns\<close> for the
  conversations with at least one turn. An entry of \<^verbatim>\<open>conversation_turns\<close> is the
  triple (conversation\_id, title, turns).
\<close>

fun deep_loop ::
  "conversation list \<Rightarrow> nat list \<times> (ustring \<times> ustring \<times> nat) list" where
  "deep_loop [] = ([], [])"
| "deep_loop (conv # convs) =
     (if 0 < user_message_count conv then
        (user_message_count conv # fst (deep_loop convs),
         (get_or_empty (conversation_id conv), get_or_empty (title conv),
          user_message_count conv) # snd (deep_loop convs))
      else deep_loop convs)"

record deep_dive_index =
  total_conversations :: nat
  average_turns :: real
  shallow_1_2_turns :: nat
  medium_3_9_turns :: nat
  deep_10plus_turns :: nat
  max_turns :: nat
  top_deep_conversations :: "(ustring \<times> ustring \<times> nat) list"

text \<open>
  \<^verbatim>\<open>sorted(xs, key=lambda x: x["turns"], reverse=True)\<close>: descending and stable, equal
  keys keep their order.
\<close>

definition sorted_by_turns ::
  "(ustring \<times> ustring \<times> nat) list \<Rightarrow> (ustring \<times> ustring \<times> nat) list" where
  "sorted_by_turns xs = sort_key (\<lambda>x. - int (snd (snd x))) xs"

definition deep_result ::
  "nat list \<Rightarrow> (ustring \<times> ustring \<times> nat) list \<Rightarrow> deep_dive_index" where
  "deep_result turn_counts conversation_turns =
     \<lparr>total_conversations = length turn_counts,
      average_turns =
        (if turn_counts \<noteq> []
         then py_round 1 (float_div (real (sum_list turn_counts)) (real (length turn_counts)))
         else 0),
      shallow_1_2_turns = length (filter (\<lambda>t. 1 \<le> t \<and> t \<le> 2) turn_counts),
      medium_3_9_turns = length (filter (\<lambda>t. 3 \<le> t \<and> t \<le> 9) turn_counts),
      deep_10plus_turns = length (filter (\<lambda>t. 10 \<le> t) turn_counts),
      max_turns = fold max turn_counts 0,
      top_deep_conversations = take 5 (sorted_by_turns conversation_turns)\<rparr>"

definition analyze_deep_dive_index :: "conversation list \<Rightarrow> deep_dive_index" where
  "analyze_deep_dive_index convs = deep_result (fst (deep_loop convs)) (snd (deep_loop convs))"

subsection \<open>Pass 5: input/output ratio\<close>

text \<open>
  The three labels with their canned descriptions: \<open>Learner\<close> is the label of
  \<^verbatim>\<open>ratio >= 8\<close>, \<open>Balanced\<close> of \<^verbatim>\<open>ratio >= 3\<close>, \<open>Creator\<close> of the
  \<^verbatim>\<open>else\<close> branch. The display string \<^verbatim>\<open>f"1:{ratio}"\<close> is not modelled.
\<close>

datatype persona = Learner | Balanced | Creator

record directors_ratio =
  input_chars :: nat
  output_chars :: nat
  ratio :: real
  persona_type :: persona

definition persona_of :: "real \<Rightarrow> persona" where
  "persona_of r = (if 8 \<le> r then Learner else if 3 \<le> r then Balanced else Creator)"

definition ratio_of :: "nat \<Rightarrow> nat \<Rightarrow> real" where
  "ratio_of user_chars assistant_chars =
     (if 0 < user_chars
      then py_round 2 (float_div (real assistant_chars) (real user_chars)) else 0)"

text \<open>
  The pass reads \<^verbatim>\<open>self.summary["summary_stats"]\<close>: the argument is that entry of the
  summary, \<open>None\<close> when pass 1 has not stored it.
\<close>

definition analyze_directors_ratio :: "summary_stats option \<Rightarrow> error + directors_ratio" where
  "analyze_directors_ratio entry =
     (case entry of
        None \<Rightarrow> Inl KeyError
      | Some ss \<Rightarrow>
          Inr \<lparr>input_chars = total_user_characters ss,
               output_chars = total_assistant_characters ss,
               ratio = ratio_of (total_user_characters ss) (total_assistant_characters ss),
               persona_type =
                 persona_of
                   (ratio_of (total_user_characters ss) (total_assistant_characters ss))\<rparr>)"

subsection \<open>Pass 7: marathon session\<close>

text \<open>The loop over the archive with its two variables, \<^verbatim>\<open>max_turns\<close> and \<^verbatim>\<open>marathon_conv\<close>.\<close>

fun marathon_loop ::
  "conversation list \<Rightarrow> nat \<times> conversation option \<Rightarrow> nat \<times> conversation option" where
  "marathon_loop [] s = s"
| "marathon_loop (conv # convs) (mx, marathon_conv) =
     (if mx < user_message_count conv
      then marathon_loop convs (user_message_count conv, Some conv)
      else marathon_loop convs (mx, marathon_conv))"

text \<open>
  In the result, \<open>session_date\<close> is the date that \<^verbatim>\<open>strftime("%Y-%m-%d")\<close> prints, or
  \<open>None\<close> for the placeholder of a conversation without a timestamp.
\<close>

record marathon_session =
  session_title :: ustring
  session_date :: "(int \<times> int \<times> int) option"
  session_turns :: nat
  session_id :: ustring

definition untitled :: ustring where
  "untitled = [26410, 21629, 21517, 23545, 35805]"

definition marathon_entry ::
  "conversation \<Rightarrow> nat \<Rightarrow> (int \<times> int \<times> int) option \<Rightarrow> marathon_session" where
  "marathon_entry conv mx d =
     \<lparr>session_title = (case title conv of None \<Rightarrow> untitled | Some s \<Rightarrow> s),
      session_date = d,
      session_turns = mx,
      session_id = get_or_empty (conversation_id conv)\<rparr>"

text \<open>
  \<^verbatim>\<open>if marathon_conv\<close> tests the chosen dict, which is never empty (it has a mapping with
  a user message), so the test is \<open>marathon_conv \<noteq> None\<close>.
\<close>

definition analyze_marathon_session ::
  "host \<Rightarrow> conversation list \<Rightarrow> error + marathon_session option" where
  "analyze_marathon_session h convs =
     (case marathon_loop convs (0, None) of
        (mx, None) \<Rightarrow> Inr None
      | (mx, Some conv) \<Rightarrow>
          (case time_if_truthy (create_time conv) of
             None \<Rightarrow> Inr (Some (marathon_entry conv mx None))
           | Some t \<Rightarrow>
               (case fromtimestamp h t of
                  Inl e \<Rightarrow> Inl e
                | Inr dt \<Rightarrow> Inr (Some (marathon_entry conv mx (Some (dt_date dt)))))))"

subsection \<open>Pass 9: politeness\<close>

record polite_counts =
  pc_please :: nat
  pc_thank_you :: nat
  pc_help :: nat
  pc_total_messages :: nat

definition incr_if :: "bool \<Rightarrow> nat \<Rightarrow> nat" where
  "incr_if b n = (if b then n + 1 else n)"

text \<open>
  The six tests on the lower-cased text of one user message, the English ones first.
  The Chinese keywords are given by their code points.
\<close>

definition polite_text :: "ustring \<Rightarrow> polite_counts \<Rightarrow> polite_counts" where
  "polite_text text pc =
     \<lparr>pc_please =
        incr_if (py_in [35831] text)
          (incr_if (py_in (ascii ''please'') text) (pc_please pc)),
      pc_thank_you =
        incr_if (py_in [35874, 35874] text \<or> py_in [24863, 35874] text)
          (incr_if (py_in (ascii ''thank you'') text \<or> py_in (ascii ''thanks'') text)
             (pc_thank_you pc)),
      pc_help =
        incr_if (py_in [24110, 24537] text \<or> py_in [24110] text \<or> py_in [25937, 21629] text)
          (incr_if (py_in (ascii ''help'') text) (pc_help pc)),
      pc_total_messages = pc_total_messages pc + 1\<rparr>"

definition polite_message :: "host \<Rightarrow> message \<Rightarrow> polite_counts \<Rightarrow> polite_counts" where
  "polite_message h m pc =
     (if is_user m then polite_text (lower h (extract_text_from_message (repr h) m)) pc
      else pc)"

definition polite_loop :: "host \<Rightarrow> conversation list \<Rightarrow> polite_counts" where
  "polite_loop h convs =
     fold (\<lambda>conv. fold (polite_message h) (messages_of conv)) convs
       \<lparr>pc_please = 0, pc_thank_you = 0, pc_help = 0, pc_total_messages = 0\<rparr>"

text \<open>The three canned evaluations, by the branch that chooses them.\<close>

datatype evaluation = Courteous | Moderate | Blunt

record politeness_score =
  please_count :: nat
  thank_you_count :: nat
  help_count :: nat
  total_polite_usage :: nat
  total_messages :: nat
  politeness_percentage :: real
  evaluation :: evaluation

definition percentage_of :: "nat \<Rightarrow> nat \<Rightarrow> real" where
  "percentage_of total_polite n =
     (if 0 < n then py_round 1 (float_mul (float_div (real total_polite) (real n)) 100) else 0)"

definition evaluation_of :: "real \<Rightarrow> evaluation" where
  "evaluation_of p = (if 50 \<le> p then Courteous else if 20 \<le> p then Moderate else Blunt)"

definition polite_result :: "polite_counts \<Rightarrow> politeness_score" where
  "polite_result pc =
     \<lparr>please_count = pc_please pc,
      thank_you_count = pc_thank_you pc,
      help_count = pc_help pc,
      total_polite_usage = pc_please pc + pc_thank_you pc + pc_help pc,
      total_messages = pc_total_messages pc,
      politeness_percentage =
        percentage_of (pc_please pc + pc_thank_you pc + pc_help pc) (pc_total_messages pc),
      evaluation =
        evaluation_of
          (percentage_of (pc_please pc + pc_thank_you pc + pc_help pc)
             (pc_total_messages pc))\<rparr>"

definition analyze_politeness_score :: "host \<Rightarrow> conversation list \<Rightarrow> politeness_score" where
  "analyze_politeness_score h convs = polite_result (polite_loop h convs)"

subsection \<open>Pass 8: monthly focus\<close>

text \<open>\<^verbatim>\<open>monthly_texts[key].append(text)\<close> on a \<^verbatim>\<open>defaultdict(list)\<close>.\<close>

fun append_text ::
  "'k \<Rightarrow> ustring \<Rightarrow> ('k \<times> ustring list) list \<Rightarrow> ('k \<times> ustring list) list" where
  "append_text k x [] = [(k, [x])]"
| "append_text k x ((k', xs) # d) =
     (if k' = k then (k', xs @ [x]) # d else (k', xs) # append_text k x d)"

text \<open>The texts a conversation adds to its month: the non-empty texts of its user messages.\<close>

definition user_texts :: "host \<Rightarrow> conversation \<Rightarrow> ustring list" where
  "user_texts h conv =
     filter (\<lambda>text. text \<noteq> [])
       (map (extract_text_from_message (repr h)) (filter is_user (messages_of conv)))"

text \<open>The first loop of the pass, which groups the texts by month.\<close>

fun monthly_texts ::
  "host \<Rightarrow> conversation list \<Rightarrow> ((int \<times> int) \<times> ustring list) list \<Rightarrow>
   error + ((int \<times> int) \<times> ustring list) list" where
  "monthly_texts h [] mt = Inr mt"
| "monthly_texts h (conv # convs) mt =
     (case time_if_truthy (create_time conv) of
        None \<Rightarrow> monthly_texts h convs mt
      | Some t \<Rightarrow>
          (case fromtimestamp h t of
             Inl e \<Rightarrow> Inl e
           | Inr dt \<Rightarrow>
               monthly_texts h convs (fold (append_text (month_key dt)) (user_texts h conv) mt)))"

text \<open>
  \<^verbatim>\<open>re.findall\<close> with the pattern of two to four characters of the range
  U+4E00 to U+9FFF, greedy and without overlap: the scan keeps the run of CJK
  characters read so far; a run is emitted when it reaches four characters, and at its
  end when it has at least two.
\<close>

definition is_cjk :: "nat \<Rightarrow> bool" where
  "is_cjk c = (19968 \<le> c \<and> c \<le> 40959)"

definition flush_run :: "ustring \<Rightarrow> ustring list" where
  "flush_run buf = (if 2 \<le> length buf then [buf] else [])"

fun cjk_scan :: "ustring \<Rightarrow> ustring \<Rightarrow> ustring list" where
  "cjk_scan buf [] = flush_run buf"
| "cjk_scan buf (c # cs) =
     (if is_cjk c then
        (if length buf = 3 then (buf @ [c]) # cjk_scan [] cs else cjk_scan (buf @ [c]) cs)
      else flush_run buf @ cjk_scan [] cs)"

definition cjk_findall :: "ustring \<Rightarrow> ustring list" where
  "cjk_findall text = cjk_scan [] text"

text \<open>
  \<^verbatim>\<open>Counter(words).most_common(n)\<close>: the counts in order of first occurrence, sorted
  by descending count with equal counts in that order, cut to \<open>n\<close>.
\<close>

definition most_common :: "nat \<Rightarrow> ustring list \<Rightarrow> (ustring \<times> nat) list" where
  "most_common n ws =
     take n (sort_key (\<lambda>x. - int (snd x)) (fold (\<lambda>w. add_count w 1) ws []))"

definition jieba_keywords :: "host \<Rightarrow> ustring \<Rightarrow> ustring list" where
  "jieba_keywords h combined =
     (case extract_tags h of
        None \<Rightarrow> []
      | Some tags \<Rightarrow>
          (case tags combined 3 of
             None \<Rightarrow> []
           | Some ws \<Rightarrow> filter (\<lambda>w. 1 < length w) ws))"

definition month_keywords :: "host \<Rightarrow> ustring \<Rightarrow> ustring list" where
  "month_keywords h combined =
     (if jieba_keywords h combined \<noteq> [] then jieba_keywords h combined
      else map fst (most_common 3 (cjk_findall combined)))"

text \<open>\<^verbatim>\<open>conv.get("create_time", 0)\<close> passed to \<^verbatim>\<open>datetime.fromtimestamp\<close>.\<close>

fun time_or_zero :: "ctime \<Rightarrow> error + real" where
  "time_or_zero Absent = Inr 0"
| "time_or_zero Null = Inl TypeError"
| "time_or_zero (Num t) = Inr t"

text \<open>
  The generator under \<^verbatim>\<open>len(set(...))\<close>: the ids (\<open>None\<close> for a conversation without
  one) of the conversations of the archive whose month is \<open>mth\<close>.
\<close>

fun month_ids ::
  "host \<Rightarrow> int \<times> int \<Rightarrow> conversation list \<Rightarrow> error + ustring option list" where
  "month_ids h mth [] = Inr []"
| "month_ids h mth (conv # convs) =
     (case time_or_zero (create_time conv) of
        Inl e \<Rightarrow> Inl e
      | Inr t \<Rightarrow>
          (case fromtimestamp h t of
             Inl e \<Rightarrow> Inl e
           | Inr dt \<Rightarrow>
               (case month_ids h mth convs of
                  Inl e \<Rightarrow> Inl e
                | Inr ids \<Rightarrow>
                    Inr (if month_key dt = mth then conversation_id conv # ids else ids))))"

record monthly_topic =
  month :: "int \<times> int"
  top_keywords :: "ustring list"
  conversation_count :: nat

text \<open>The second loop, over \<^verbatim>\<open>sorted(monthly_texts.items())\<close>.\<close>

fun monthly_topics ::
  "host \<Rightarrow> conversation list \<Rightarrow> ((int \<times> int) \<times> ustring list) list \<Rightarrow>
   error + monthly_topic list" where
  "monthly_topics h convs [] = Inr []"
| "monthly_topics h convs ((mth, texts) # rest) =
     (case month_ids h mth convs of
        Inl e \<Rightarrow> Inl e
      | Inr ids \<Rightarrow>
          (case monthly_topics h convs rest of
             Inl e \<Rightarrow> Inl e
           | Inr topics \<Rightarrow>
               Inr (\<lparr>month = mth,
                     top_keywords = take 3 (month_keywords h (join (ascii '' '') texts)),
                     conversation_count = length (remdups ids)\<rparr> # topics)))"

definition analyze_monthly_focus :: "host \<Rightarrow> conversation list \<Rightarrow> error + monthly_topic list" where
  "analyze_monthly_focus h convs =
     (case monthly_texts h convs [] of
        Inl e \<Rightarrow> Inl e
      | Inr mt \<Rightarrow> monthly_topics h convs (sort_key fst mt))"

subsection \<open>The driver\<close>

text \<open>
  \<^verbatim>\<open>run_all_analyses\<close> runs the ten passes in order, each storing its result under its
  key of \<^verbatim>\<open>self.summary\<close>; an exception of a pass ends the run. The keyword pass,
  the language pass and the badge pass compute with the optional packages and with
  floating-point thresholds; the driver takes them as the functions \<open>kw\<close>, \<open>lp\<close>
  and \<open>pb\<close> (the badge pass reads the heatmap entry of the summary).
\<close>

record ('k, 'l, 'b) summary =
  summary_stats_entry :: summary_stats
  brain_activity_heatmap_entry :: brain_activity_heatmap
  keywords_entry :: 'k
  deep_dive_index_entry :: deep_dive_index
  directors_ratio_entry :: directors_ratio
  linguistic_profile_entry :: 'l
  marathon_session_entry :: "marathon_session option"
  monthly_focus_entry :: "monthly_topic list"
  politeness_score_entry :: politeness_score
  persona_badge_entry :: 'b

fun and_then :: "error + 'a \<Rightarrow> ('a \<Rightarrow> error + 'b) \<Rightarrow> error + 'b" where
  "and_then (Inl e) f = Inl e"
| "and_then (Inr x) f = f x"

definition run_all_analyses ::
  "host \<Rightarrow> (conversation list \<Rightarrow> error + 'k) \<Rightarrow> (conversation list \<Rightarrow> error + 'l) \<Rightarrow>
   (brain_activity_heatmap \<Rightarrow> error + 'b) \<Rightarrow> conversation list \<Rightarrow>
   error + ('k, 'l, 'b) summary" where
  "run_all_analyses h kw lp pb convs =
     and_then (analyze_summary_stats h convs) (\<lambda>s1.
     and_then (analyze_brain_activity_heatmap h convs) (\<lambda>s2.
     and_then (kw convs) (\<lambda>s3.
     and_then (analyze_directors_ratio (Some s1)) (\<lambda>s5.
     and_then (lp convs) (\<lambda>s6.
     and_then (analyze_marathon_session h convs) (\<lambda>s7.
     and_then (analyze_monthly_focus h convs) (\<lambda>s8.
     and_then (pb s2) (\<lambda>s10.
       Inr \<lparr>summary_stats_entry = s1,
            brain_activity_heatmap_entry = s2,
            keywords_entry = s3,
            deep_dive_index_entry = analyze_deep_dive_index convs,
            directors_ratio_entry = s5,
            linguistic_profile_entry = s6,
            marathon_session_entry = s7,
            monthly_focus_entry = s8,
            politeness_score_entry = analyze_politeness_score h convs,
            persona_badge_entry = s10\<rparr>))))))))"

subsection \<open>A host and the archives of the scenarios\<close>

text \<open>
  A host whose local zone is UTC (Linux, 64-bit \<^verbatim>\<open>time_t\<close>), without \<^verbatim>\<open>jieba\<close>.
  \<^verbatim>\<open>datetime.fromtimestamp\<close> splits the timestamp into its integral part and its
  fraction, rounds the fraction times \<open>10 ^ 6\<close> (a float product) to whole
  microseconds, a tie going to the even one, and carries into the seconds. It raises
  \<^verbatim>\<open>OverflowError\<close> when the seconds do not fit \<^verbatim>\<open>time_t\<close>, \<^verbatim>\<open>OSError\<close> when the C
  library cannot break them down (the year does not fit an \<^verbatim>\<open>int\<close>), and
  \<^verbatim>\<open>ValueError\<close> when the result lies before 0001-01-02 00:00 or after the year 9999.
  Its \<open>lower\<close> folds the ASCII capitals, as \<^verbatim>\<open>str.lower\<close> does on ASCII and CJK
  text. Its \<open>repr\<close> is never consulted by the archives below, whose fragments are
  all strings, and renders nothing.
\<close>

definition trunc :: "real \<Rightarrow> int" where
  "trunc x = (if 0 \<le> x then \<lfloor>x\<rfloor> else \<lceil>x\<rceil>)"

definition microseconds_of :: "real \<Rightarrow> int" where
  "microseconds_of t =
     trunc t * 1000000 + rne (float_mul (t - of_int (trunc t)) 1000000)"

definition seconds_of :: "real \<Rightarrow> int" where
  "seconds_of t = microseconds_of t div 1000000"

definition utc_fromtimestamp :: "real \<Rightarrow> error + datetime" where
  "utc_fromtimestamp t =
     (if seconds_of t < - (2 ^ 63) \<or> 2 ^ 63 \<le> seconds_of t then Inl OverflowError
      else if seconds_of t < - 67768040609740800 \<or> 67768036191676799 < seconds_of t
        then Inl OSError
      else if microseconds_of t < - 62135510400 * 1000000 \<or>
              253402300800 * 1000000 \<le> microseconds_of t
        then Inl ValueError
      else Inr (Datetime (of_int (microseconds_of t) / 1000000)))"

definition ascii_lower :: "ustring \<Rightarrow> ustring" where
  "ascii_lower s = map (\<lambda>c. if 65 \<le> c \<and> c \<le> 90 then c + 32 else c) s"

definition utc_host :: host where
  "utc_host =
     \<lparr>fromtimestamp = utc_fromtimestamp, lower = ascii_lower, repr = (\<lambda>v. []),
      extract_tags = None\<rparr>"

definition text_message :: "string \<Rightarrow> ustring \<Rightarrow> message" where
  "text_message r text =
     \<lparr>author = Some \<lparr>role = Some (ascii r)\<rparr>,
      content = Some (JDict [(ascii ''parts'', JList [JStr text])])\<rparr>"

definition text_node :: "string \<Rightarrow> string \<Rightarrow> ustring \<Rightarrow> ustring \<times> node" where
  "text_node node_id r text = (ascii node_id, \<lparr>message = Some (text_message r text)\<rparr>)"

text \<open>
  Scenario A: one conversation created at \<open>t\<close> with a user message whose text is the
  eleven code points of \<^verbatim>\<open>"\<close>U+8BF7 U+5E2E U+5FD9\<^verbatim>\<open>, thanks"\<close> and an assistant
  message of the two code points U+4F60 U+597D.
\<close>

definition scenario_A_text :: ustring where
  "scenario_A_text = [35831, 24110, 24537] @ ascii '', thanks''"

definition scenario_A :: "real \<Rightarrow> conversation list" where
  "scenario_A t =
     [\<lparr>conversation_id = Some (ascii ''c1''), title = Some (ascii ''t1''),
       create_time = Num t,
       mapping = [text_node ''n1'' ''user'' scenario_A_text,
                  text_node ''n2'' ''assistant'' [20320, 22909]]\<rparr>]"

subsection \<open>Notions of the statements\<close>

text \<open>
  A conversation is timed when its \<^verbatim>\<open>create_time\<close> passes the test \<^verbatim>\<open>if create_time\<close>;
  its timestamp is non-null, in the words of the specification, when it is a number.
  The host fails on a timed conversation when \<open>fromtimestamp\<close> raises on it.
\<close>

definition timed :: "conversation \<Rightarrow> bool" where
  "timed conv = (time_if_truthy (create_time conv) \<noteq> None)"

fun non_null :: "ctime \<Rightarrow> bool" where
  "non_null (Num t) = True"
| "non_null Null = False"
| "non_null Absent = False"

definition time_fails :: "host \<Rightarrow> conversation \<Rightarrow> bool" where
  "time_fails h conv =
     (case time_if_truthy (create_time conv) of
        None \<Rightarrow> False
      | Some t \<Rightarrow> isl (fromtimestamp h t))"

text \<open>The sum of the counts of a counter, and of the cells of the heatmap.\<close>

definition total_count :: "('k \<times> nat) list \<Rightarrow> nat" where
  "total_count d = sum_list (map snd d)"

definition cells_total :: "(int \<times> int \<times> nat) list \<Rightarrow> nat" where
  "cells_total cells = sum_list (map (\<lambda>cell. snd (snd cell)) cells)"

text \<open>The time statistics of pass 1: the span, the most active date and hour.\<close>

definition time_statistics ::
  "summary_stats \<Rightarrow> real \<times> ((int \<times> int \<times> int) option \<times> nat) \<times> (int option \<times> nat)" where
  "time_statistics ss = (total_hours_span ss, most_active_date ss, most_active_hour ss)"

text \<open>
  The characters of the archive: the lengths of the texts of its user messages, and of
  its assistant messages, summed over all conversations.
\<close>

definition chars_of :: "host \<Rightarrow> (message \<Rightarrow> bool) \<Rightarrow> conversation list \<Rightarrow> nat" where
  "chars_of h by_role convs =
     sum_list
       (map (\<lambda>conv.
               sum_list
                 (map (\<lambda>m. length (extract_text_from_message (repr h) m))
                    (filter by_role (messages_of conv))))
          convs)"

text \<open>The part of the state of pass 1 that the timestamps feed.\<close>

definition time_part ::
  "stats_acc \<Rightarrow> datetime list \<times> (int \<times> int \<times> int) counts \<times> int counts \<times> int counts" where
  "time_part a = (timestamps a, date_counts a, hour_counts a, weekday_counts a)"

text \<open>
  The first conversation, in archive order, whose number of turns is positive and is
  the maximum over the archive.
\<close>

definition first_longest :: "conversation list \<Rightarrow> conversation option" where
  "first_longest convs =
     find (\<lambda>conv. 0 < user_message_count conv \<and>
                  user_message_count conv = Max (set (0 # map user_message_count convs)))
       convs"

text \<open>What pass 7 reports for a chosen conversation.\<close>

definition marathon_report :: "host \<Rightarrow> conversation \<Rightarrow> error + marathon_session option" where
  "marathon_report h conv =
     (case time_if_truthy (create_time conv) of
        None \<Rightarrow> Inr (Some (marathon_entry conv (user_message_count conv) None))
      | Some t \<Rightarrow>
          (case fromtimestamp h t of
             Inl e \<Rightarrow> Inl e
           | Inr dt \<Rightarrow>
               Inr (Some (marathon_entry conv (user_message_count conv) (Some (dt_date dt))))))"

text \<open>Archives of the scenarios and of the examples below.\<close>

definition bare :: "string \<Rightarrow> ctime \<Rightarrow> (ustring \<times> node) list \<Rightarrow> conversation" where
  "bare cid ct nodes =
     \<lparr>conversation_id = Some (ascii cid), title = None, create_time = ct, mapping = nodes\<rparr>"

definition epoch_archive :: "conversation list" where
  "epoch_archive = [bare ''c0'' (Num 0) []]"

definition silent_month :: "conversation list" where
  "silent_month = [bare ''c1'' (Num 1700000000) [], bare ''c2'' (Num 1700086400) []]"

definition spoken_month :: "conversation list" where
  "spoken_month =
     [bare ''c1'' (Num 1700000000) [text_node ''n1'' ''user'' (ascii ''hi'')],
      bare ''c2'' (Num 1700086400) []]"

definition null_time_archive :: "conversation list" where
  "null_time_archive =
     [bare ''c1'' (Num 1700000000) [text_node ''n1'' ''user'' (ascii ''hi'')],
      bare ''c2'' Null []]"

definition tie_archive :: "conversation list" where
  "tie_archive =
     [bare ''c1'' (Num 1700000000)
        [text_node ''n1'' ''user'' (replicate 40 97),
         text_node ''n2'' ''assistant'' (replicate 107 98)]]"

definition assistant_only :: "conversation list" where
  "assistant_only =
     [bare ''c1'' (Num 1700000000) [text_node ''n1'' ''assistant'' [20320, 22909]]]"

definition polite_twice :: message where
  "polite_twice = text_message ''user'' (ascii ''Please '' @ [35831])"

definition polite_archive :: "conversation list" where
  "polite_archive = [bare ''c1'' Absent [(ascii ''n1'', \<lparr>message = Some polite_twice\<rparr>)]]"

definition no_counts :: polite_counts where
  "no_counts = \<lparr>pc_please = 0, pc_thank_you = 0, pc_help = 0, pc_total_messages = 0\<rparr>"

section \<open>Theorems\<close>

subsection \<open>Text extraction is its contract\<close>

text \<open>
  C3. Text extraction is a total function of the content field alone: on every message
  it equals the contract above, evaluated on \<open>content m\<close> (the join of the string
  forms of the non-empty fragments when a parts list exists, else the string form of a
  truthy content, else the empty string).
\<close>

theorem extract_text_contract:
  "extract_text_from_message rp m = extractText_spec rp (content m)"
proof (cases "content m")
  case None
  then show ?thesis
    by (simp add: extract_text_from_message_def extractText_spec_def)
next
  case (Some c)
  then show ?thesis
    by (cases c)
      (simp_all add: extract_text_from_message_def extractText_spec_def stringify_def
        split: option.split json.split)
qed

subsection \<open>Counters\<close>

lemma total_add_count: "total_count (add_count k n d) = total_count d + n"
  by (induction d) (auto simp: total_count_def)

lemma map_fst_add_count:
  "map fst (add_count k n d) = (if k \<in> fst ` set d then map fst d else map fst d @ [k])"
proof (induction d)
  case Nil
  then show ?case by simp
next
  case (Cons x d)
  obtain k' c where x: "x = (k', c)" by (cases x)
  show ?case
  proof (cases "k' = k")
    case True
    then show ?thesis by (simp add: x)
  next
    case False
    with Cons show ?thesis by (simp add: x)
  qed
qed

lemma keys_add_count: "fst ` set (add_count k n d) = insert k (fst ` set d)"
proof -
  have "set (map fst (add_count k n d)) = insert k (set (map fst d))"
    unfolding map_fst_add_count by auto
  then show ?thesis by simp
qed

lemma distinct_add_count:
  "distinct (map fst d) \<Longrightarrow> distinct (map fst (add_count k n d))"
  unfolding map_fst_add_count by auto

lemma heatmap_loop_total:
  "heatmap_loop h convs hm = Inr hm' \<Longrightarrow>
   total_count hm' = total_count hm + length (filter timed convs)"
proof (induction convs arbitrary: hm)
  case Nil
  then show ?case by simp
next
  case (Cons conv convs)
  then show ?case
    by (auto simp: timed_def total_add_count split: option.splits sum.splits)
qed

lemma heatmap_loop_returns:
  "\<not> list_ex (time_fails h) convs \<Longrightarrow> \<exists>hm'. heatmap_loop h convs hm = Inr hm'"
proof (induction convs arbitrary: hm)
  case Nil
  then show ?case by simp
next
  case (Cons conv convs)
  then show ?case
    by (auto simp: time_fails_def split: option.splits sum.splits)
qed

lemma weekday_range: "0 \<le> dt_weekday d \<and> dt_weekday d < 7"
  by (simp add: dt_weekday_def)

lemma heatmap_loop_weekdays:
  "heatmap_loop h convs hm = Inr hm' \<Longrightarrow>
   \<forall>cell \<in> set hm. 0 \<le> snd (fst cell) \<and> snd (fst cell) < 7 \<Longrightarrow>
   \<forall>cell \<in> set hm'. 0 \<le> snd (fst cell) \<and> snd (fst cell) < 7"
proof (induction convs arbitrary: hm)
  case Nil
  then show ?case by simp
next
  case (Cons conv convs)
  show ?case
  proof (cases "time_if_truthy (create_time conv)")
    case None
    with Cons show ?thesis by simp
  next
    case (Some t)
    with Cons.prems(1) obtain dt where dt: "fromtimestamp h t = Inr dt"
      and loop: "heatmap_loop h convs (add_count (dt_hour dt, dt_weekday dt) 1 hm) = Inr hm'"
      by (auto split: sum.splits)
    have "\<forall>cell \<in> set (add_count (dt_hour dt, dt_weekday dt) 1 hm).
            0 \<le> snd (fst cell) \<and> snd (fst cell) < 7"
    proof
      fix cell assume "cell \<in> set (add_count (dt_hour dt, dt_weekday dt) 1 hm)"
      then have "fst cell \<in> fst ` set (add_count (dt_hour dt, dt_weekday dt) 1 hm)" by simp
      then have "fst cell = (dt_hour dt, dt_weekday dt) \<or> fst cell \<in> fst ` set hm"
        by (simp add: keys_add_count)
      with Cons.prems(2) weekday_range [of dt]
      show "0 \<le> snd (fst cell) \<and> snd (fst cell) < 7" by auto
    qed
    with Cons.IH loop show ?thesis by blast
  qed
qed

lemma fold_add_total:
  "total_count (fold (\<lambda>cell. add_count (f cell) (snd cell)) hm acc) = total_count acc + total_count hm"
proof (induction hm arbitrary: acc)
  case Nil
  then show ?case by (simp add: total_count_def)
next
  case (Cons x hm)
  then show ?case by (simp add: total_add_count) (simp add: total_count_def)
qed

lemma fold_add_keys:
  "fst ` set (fold (\<lambda>cell. add_count (f cell) (snd cell)) hm acc) = fst ` set acc \<union> f ` set hm"
  by (induction hm arbitrary: acc) (auto simp: keys_add_count)

lemma fold_add_distinct:
  "distinct (map fst acc) \<Longrightarrow>
   distinct (map fst (fold (\<lambda>cell. add_count (f cell) (snd cell)) hm acc))"
  by (induction hm arbitrary: acc) (auto simp: distinct_add_count)

lemma hour_totals_alt: "hour_totals hm = fold (\<lambda>cell. add_count (fst (fst cell)) (snd cell)) hm []"
  by (simp add: hour_totals_def case_prod_unfold)

lemma weekday_totals_alt:
  "weekday_totals hm = fold (\<lambda>cell. add_count (snd (fst cell)) (snd cell)) hm []"
  by (simp add: weekday_totals_def case_prod_unfold)

lemma get_count_Cons:
  "get_count k ((k', c) # d) = (if k = k' then c else get_count k d)"
  by (simp add: get_count_def)

lemma get_count_absent: "k \<notin> fst ` set d \<Longrightarrow> get_count k d = 0"
  by (simp add: get_count_def map_of_eq_None_iff [THEN iffD2])

lemma sum_skip:
  "k \<notin> set ks \<Longrightarrow>
   sum_list (map (\<lambda>x. if x = k then (c::nat) else g x) ks) = sum_list (map g ks)"
  by (induction ks) auto

lemma sum_pick:
  "distinct ks \<Longrightarrow> k \<in> set ks \<Longrightarrow>
   sum_list (map (\<lambda>x. if x = k then (c::nat) else g x) ks) + g k = c + sum_list (map g ks)"
  by (induction ks) (auto simp: sum_skip)

lemma sum_get_count:
  "distinct (map fst d) \<Longrightarrow> fst ` set d \<subseteq> set ks \<Longrightarrow> distinct ks \<Longrightarrow>
   sum_list (map (\<lambda>k. get_count k d) ks) = total_count d"
proof (induction d)
  case Nil
  then show ?case by (simp add: get_count_def total_count_def)
next
  case (Cons x d)
  obtain k c where x: "x = (k, c)" by (cases x)
  from Cons.prems x have k: "k \<in> set ks" "k \<notin> fst ` set d" by auto
  have "sum_list (map (\<lambda>y. get_count y (x # d)) ks) =
        sum_list (map (\<lambda>y. if y = k then c else get_count y d) ks)"
    by (simp add: x get_count_Cons)
  also have "\<dots> + get_count k d = c + sum_list (map (\<lambda>y. get_count y d) ks)"
    using Cons.prems(3) k(1) by (rule sum_pick)
  finally have "sum_list (map (\<lambda>y. get_count y (x # d)) ks) =
                c + sum_list (map (\<lambda>y. get_count y d) ks)"
    using k(2) by (simp add: get_count_absent)
  moreover have "sum_list (map (\<lambda>y. get_count y d) ks) = total_count d"
    using Cons.prems by (intro Cons.IH) auto
  ultimately show ?case by (simp add: x total_count_def)
qed

lemma weekday_distribution_total:
  assumes "\<forall>cell \<in> set hm. 0 \<le> snd (fst cell) \<and> snd (fst cell) < 7"
  shows "total_count (weekday_distribution (heatmap_result hm)) = total_count hm"
proof -
  let ?wt = "weekday_totals hm"
  have keys: "fst ` set ?wt \<subseteq> set (map int [0..<7])"
  proof
    fix k assume "k \<in> fst ` set ?wt"
    then have "k \<in> (\<lambda>cell. snd (fst cell)) ` set hm"
      by (simp add: weekday_totals_alt fold_add_keys)
    with assms have "0 \<le> k \<and> k < 7" by auto
    then have "k = int (nat k)" and "nat k \<in> set [0..<7]" by auto
    then show "k \<in> set (map int [0..<7])"
      unfolding set_map by (rule image_eqI)
  qed
  have dist: "distinct (map fst ?wt)"
    by (simp add: weekday_totals_alt fold_add_distinct)
  have "total_count (weekday_distribution (heatmap_result hm)) =
        sum_list (map (\<lambda>k. get_count k ?wt) (map int [0..<7]))"
    by (simp add: heatmap_result_def total_count_def comp_def)
  also have "\<dots> = total_count ?wt"
    using dist keys by (rule sum_get_count) (simp add: distinct_map)
  also have "\<dots> = total_count hm"
    by (simp add: weekday_totals_alt fold_add_total) (simp add: total_count_def)
  finally show ?thesis .
qed

lemma hour_distribution_total:
  "total_count (hour_distribution (heatmap_result hm)) = total_count hm"
  by (simp add: heatmap_result_def hour_totals_alt fold_add_total) (simp add: total_count_def)

lemma cells_total_result: "cells_total (heatmap_data (heatmap_result hm)) = total_count hm"
  by (simp add: heatmap_result_def cells_total_def total_count_def comp_def case_prod_unfold)

lemma exponent_down_unfold:
  "0 < n \<Longrightarrow> exponent_down n x = (if 2 \<le> x then exponent_down (n - 1) (x / 2) + 1 else 0)"
  by (cases n) simp_all

lemma exponent_up_unfold:
  "0 < n \<Longrightarrow> exponent_up n x = (if x < 1 then exponent_up (n - 1) (x * 2) - 1 else 0)"
  by (cases n) simp_all

lemmas float_eval =
  float_div_def float_mul_def to_double_def binade_def pow2_def rne_def py_round_def
  exponent_down_unfold exponent_up_unfold

lemmas utc_eval =
  utc_host_def utc_fromtimestamp_def seconds_of_def microseconds_of_def trunc_def float_eval

lemma utc_ok: "fromtimestamp utc_host 1700000000 = Inr (Datetime 1700000000)"
  by (simp add: utc_eval)

lemma utc_ok_next: "fromtimestamp utc_host 1700086400 = Inr (Datetime 1700086400)"
  by (simp add: utc_eval)

lemma extract_text_message [simp]:
  "extract_text_from_message rp (text_message r text) = text"
  by (cases "text = []") (simp_all add: extract_text_from_message_def text_message_def)

lemma role_text_message [simp]:
  "is_user (text_message r text) = (ascii r = ascii ''user'')"
  "is_assistant (text_message r text) = (ascii r = ascii ''assistant'')"
  by (simp_all add: is_user_def is_assistant_def get_role_def text_message_def)

subsection \<open>Heatmap conservation\<close>

text \<open>
  C4, as the code has it. On every archive whose timed conversations the host can
  convert, the heatmap pass returns, and the counts of its sparse cells, of its
  per-hour distribution and of its per-weekday distribution each sum to the number of
  timed conversations: those whose \<^verbatim>\<open>create_time\<close> is a number other than zero.
\<close>

theorem heatmap_conservation:
  assumes "\<not> list_ex (time_fails h) convs"
  shows "\<exists>r. analyze_brain_activity_heatmap h convs = Inr r \<and>
           cells_total (heatmap_data r) = length (filter timed convs) \<and>
           total_count (hour_distribution r) = length (filter timed convs) \<and>
           total_count (weekday_distribution r) = length (filter timed convs)"
proof -
  from assms obtain hm where loop: "heatmap_loop h convs [] = Inr hm"
    using heatmap_loop_returns by blast
  then have total: "total_count hm = length (filter timed convs)"
    using heatmap_loop_total [OF loop] by (simp add: total_count_def)
  have "\<forall>cell \<in> set hm. 0 \<le> snd (fst cell) \<and> snd (fst cell) < 7"
    using heatmap_loop_weekdays [OF loop] by simp
  then have "total_count (weekday_distribution (heatmap_result hm)) = total_count hm"
    by (rule weekday_distribution_total)
  with loop total show ?thesis
    by (simp add: analyze_brain_activity_heatmap_def hour_distribution_total cells_total_result)
qed

theorem heatmap_conservation_witness:
  "\<not> list_ex (time_fails utc_host) (scenario_A 1700000000 @ epoch_archive) \<and>
   (\<exists>r. analyze_brain_activity_heatmap utc_host (scenario_A 1700000000 @ epoch_archive) = Inr r \<and>
        cells_total (heatmap_data r) = 1 \<and>
        total_count (hour_distribution r) = 1 \<and>
        total_count (weekday_distribution r) = 1)"
proof -
  have ok: "\<not> list_ex (time_fails utc_host) (scenario_A 1700000000 @ epoch_archive)"
    by (simp add: time_fails_def scenario_A_def epoch_archive_def bare_def utc_ok)
  have "length (filter timed (scenario_A 1700000000 @ epoch_archive)) = 1"
    by (simp add: timed_def scenario_A_def epoch_archive_def bare_def)
  with heatmap_conservation [OF ok] ok show ?thesis by simp
qed

text \<open>
  C4 as stated counts the conversations with a non-null timestamp. The archive of one
  conversation created at the epoch, \<^verbatim>\<open>create_time = 0\<close>, has one such conversation
  and an empty heatmap.
\<close>

theorem heatmap_non_null_counterexample:
  "map_sum id (\<lambda>r. cells_total (heatmap_data r))
     (analyze_brain_activity_heatmap utc_host epoch_archive) = Inr 0 \<and>
   length (filter (\<lambda>conv. non_null (create_time conv)) epoch_archive) = 1"
  by (simp add: analyze_brain_activity_heatmap_def epoch_archive_def bare_def
      heatmap_result_def cells_total_def)

subsection \<open>A conversation created at the epoch\<close>

lemma messages_of_create_time [simp]:
  "messages_of (conv\<lparr>create_time := v\<rparr>) = messages_of conv"
  by (simp add: messages_of_def)

lemma heatmap_loop_skip:
  "time_if_truthy (create_time c) = None \<Longrightarrow>
   heatmap_loop h (xs @ c # ys) hm = heatmap_loop h (xs @ ys) hm"
  by (induction xs arbitrary: hm) (auto split: option.splits sum.splits)

lemma monthly_texts_skip:
  "time_if_truthy (create_time c) = None \<Longrightarrow>
   monthly_texts h (xs @ c # ys) mt = monthly_texts h (xs @ ys) mt"
  by (induction xs arbitrary: mt) (auto split: option.splits sum.splits)

lemma time_part_message: "time_part (stats_message h m a) = time_part a"
  by (simp add: stats_message_def time_part_def)

lemma time_part_messages: "time_part (fold (stats_message h) ms a) = time_part a"
  by (induction ms arbitrary: a) (simp_all add: time_part_message)

lemma time_part_time:
  "time_part a = time_part b \<Longrightarrow>
   map_sum id time_part (stats_time h conv a) = map_sum id time_part (stats_time h conv b)"
  by (auto simp: stats_time_def time_part_def split: option.splits sum.splits)

lemma time_part_loop:
  "time_part a = time_part b \<Longrightarrow>
   map_sum id time_part (stats_loop h convs a) = map_sum id time_part (stats_loop h convs b)"
proof (induction convs arbitrary: a b)
  case Nil
  then show ?case by simp
next
  case (Cons conv convs)
  from time_part_time [OF Cons.prems, of h conv]
  consider (fails) e where "stats_time h conv a = Inl e" "stats_time h conv b = Inl e"
    | (goes) a' b' where "stats_time h conv a = Inr a'" "stats_time h conv b = Inr b'"
        "time_part a' = time_part b'"
    by (cases "stats_time h conv a"; cases "stats_time h conv b") auto
  then show ?case
  proof cases
    case fails
    then show ?thesis by simp
  next
    case goes
    have "time_part (fold (stats_message h) (messages_of conv) a') =
          time_part (fold (stats_message h) (messages_of conv) b')"
      by (simp add: time_part_messages goes(3))
    from Cons.IH [OF this] goes show ?thesis by simp
  qed
qed

lemma stats_loop_skip:
  "time_if_truthy (create_time c) = None \<Longrightarrow>
   map_sum id time_part (stats_loop h (xs @ c # ys) a) =
   map_sum id time_part (stats_loop h (xs @ ys) a)"
proof (induction xs arbitrary: a)
  case Nil
  have step: "stats_loop h (c # ys) a =
              stats_loop h ys (fold (stats_message h) (messages_of c) a)"
    using Nil by (simp add: stats_time_def)
  show ?case
    unfolding append_Nil step by (rule time_part_loop) (rule time_part_messages)
next
  case (Cons x xs)
  then show ?case by (simp split: sum.splits)
qed

lemma stats_loop_same:
  "time_if_truthy (create_time c) = None \<Longrightarrow> time_if_truthy (create_time c') = None \<Longrightarrow>
   messages_of c = messages_of c' \<Longrightarrow>
   stats_loop h (xs @ c # ys) a = stats_loop h (xs @ c' # ys) a"
  by (induction xs arbitrary: a) (auto simp: stats_time_def split: sum.splits)

lemma time_statistics_result:
  "time_part a = time_part b \<Longrightarrow>
   time_statistics (stats_result n a) = time_statistics (stats_result m b)"
  by (simp add: time_statistics_def stats_result_def time_part_def)

lemma time_statistics_loop:
  assumes "map_sum id time_part (stats_loop h convs a) = map_sum id time_part (stats_loop h convs' a)"
  shows "map_sum id time_statistics
           (case stats_loop h convs a of Inl e \<Rightarrow> Inl e | Inr r \<Rightarrow> Inr (stats_result n r)) =
         map_sum id time_statistics
           (case stats_loop h convs' a of Inl e \<Rightarrow> Inl e | Inr r \<Rightarrow> Inr (stats_result m r))"
  using assms
  by (cases "stats_loop h convs a"; cases "stats_loop h convs' a")
    (auto intro: time_statistics_result)

text \<open>
  C10. A conversation whose \<^verbatim>\<open>create_time\<close> is exactly 0 fails the test
  \<^verbatim>\<open>if create_time\<close> and is treated as one without a timestamp. The time statistics
  of pass 1 (span, most active date and hour) are those of the archive without the
  conversation, and the whole result of pass 1 is the one obtained when the key is
  absent; the heatmap is that of the archive without the conversation; so is the
  grouping by month of the monthly-focus pass.
\<close>

theorem epoch_zero_is_untimed:
  "map_sum id time_statistics (analyze_summary_stats h (xs @ conv\<lparr>create_time := Num 0\<rparr> # ys)) =
   map_sum id time_statistics (analyze_summary_stats h (xs @ ys)) \<and>
   analyze_summary_stats h (xs @ conv\<lparr>create_time := Num 0\<rparr> # ys) =
   analyze_summary_stats h (xs @ conv\<lparr>create_time := Absent\<rparr> # ys) \<and>
   analyze_brain_activity_heatmap h (xs @ conv\<lparr>create_time := Num 0\<rparr> # ys) =
   analyze_brain_activity_heatmap h (xs @ ys) \<and>
   monthly_texts h (xs @ conv\<lparr>create_time := Num 0\<rparr> # ys) mt = monthly_texts h (xs @ ys) mt"
proof (intro conjI)
  let ?c = "conv\<lparr>create_time := Num 0\<rparr>"
  have none: "time_if_truthy (create_time ?c) = None" by simp
  show "map_sum id time_statistics (analyze_summary_stats h (xs @ ?c # ys)) =
        map_sum id time_statistics (analyze_summary_stats h (xs @ ys))"
    unfolding analyze_summary_stats_def
    by (rule time_statistics_loop) (rule stats_loop_skip [OF none])
  show "analyze_summary_stats h (xs @ ?c # ys) =
        analyze_summary_stats h (xs @ conv\<lparr>create_time := Absent\<rparr> # ys)"
    unfolding analyze_summary_stats_def
    by (simp add: stats_loop_same [where c = ?c and c' = "conv\<lparr>create_time := Absent\<rparr>"]
        cong: sum.case_cong)
  show "analyze_brain_activity_heatmap h (xs @ ?c # ys) = analyze_brain_activity_heatmap h (xs @ ys)"
    unfolding analyze_brain_activity_heatmap_def by (simp add: heatmap_loop_skip)
  show "monthly_texts h (xs @ ?c # ys) mt = monthly_texts h (xs @ ys) mt"
    by (simp add: monthly_texts_skip)
qed

subsection \<open>Engagement depth\<close>

lemma fst_deep_loop:
  "fst (deep_loop convs) =
   map user_message_count (filter (\<lambda>conv. 0 < user_message_count conv) convs)"
  by (induction convs) simp_all

lemma snd_deep_loop:
  "snd (deep_loop convs) =
   map (\<lambda>conv. (get_or_empty (conversation_id conv), get_or_empty (title conv),
                 user_message_count conv))
     (filter (\<lambda>conv. 0 < user_message_count conv) convs)"
  by (induction convs) simp_all

lemma deep_loop_filter:
  "deep_loop (filter (\<lambda>conv. 0 < user_message_count conv) convs) = deep_loop convs"
  by (rule prod_eqI) (simp_all add: fst_deep_loop snd_deep_loop)

lemma buckets_partition:
  "length (filter (\<lambda>t. 1 \<le> t \<and> t \<le> 2) (filter (\<lambda>t. 0 < t) ts)) +
   length (filter (\<lambda>t. 3 \<le> t \<and> t \<le> 9) (filter (\<lambda>t. 0 < t) ts)) +
   length (filter (\<lambda>t. 10 \<le> t) (filter (\<lambda>t. 0 < t) ts)) =
   length (filter (\<lambda>t. (0::nat) < t) ts)"
  by (induction ts) auto

lemma turn_counts_alt:
  "fst (deep_loop convs) = filter (\<lambda>t. 0 < t) (map user_message_count convs)"
  by (simp add: fst_deep_loop filter_map comp_def)

text \<open>
  C5. On every archive the three buckets of the engagement-depth pass partition the
  classified conversations: shallow, medium and deep sum to the total; the total counts
  the conversations with at least one user turn, and the buckets count those with 1 to
  2, with 3 to 9 and with 10 or more turns. A conversation without user turns
  contributes nothing: the result is that of the archive without such conversations.
\<close>

theorem engagement_partition:
  "shallow_1_2_turns (analyze_deep_dive_index convs) +
   medium_3_9_turns (analyze_deep_dive_index convs) +
   deep_10plus_turns (analyze_deep_dive_index convs) =
   deep_dive_index.total_conversations (analyze_deep_dive_index convs) \<and>
   deep_dive_index.total_conversations (analyze_deep_dive_index convs) =
   length (filter (\<lambda>conv. 1 \<le> user_message_count conv) convs) \<and>
   shallow_1_2_turns (analyze_deep_dive_index convs) =
   length (filter (\<lambda>conv. 1 \<le> user_message_count conv \<and> user_message_count conv \<le> 2) convs) \<and>
   medium_3_9_turns (analyze_deep_dive_index convs) =
   length (filter (\<lambda>conv. 3 \<le> user_message_count conv \<and> user_message_count conv \<le> 9) convs) \<and>
   deep_10plus_turns (analyze_deep_dive_index convs) =
   length (filter (\<lambda>conv. 10 \<le> user_message_count conv) convs) \<and>
   analyze_deep_dive_index (filter (\<lambda>conv. 0 < user_message_count conv) convs) =
   analyze_deep_dive_index convs"
proof (intro conjI)
  show "shallow_1_2_turns (analyze_deep_dive_index convs) +
        medium_3_9_turns (analyze_deep_dive_index convs) +
        deep_10plus_turns (analyze_deep_dive_index convs) =
        deep_dive_index.total_conversations (analyze_deep_dive_index convs)"
    by (simp only: analyze_deep_dive_index_def deep_result_def turn_counts_alt
        deep_dive_index.simps buckets_partition)
  show "deep_dive_index.total_conversations (analyze_deep_dive_index convs) =
        length (filter (\<lambda>conv. 1 \<le> user_message_count conv) convs)"
    by (simp add: analyze_deep_dive_index_def deep_result_def fst_deep_loop Suc_le_eq)
  have count: "length (filter P (fst (deep_loop convs))) =
               length (filter (\<lambda>conv. 0 < user_message_count conv \<and> P (user_message_count conv)) convs)"
    for P
    by (simp add: fst_deep_loop filter_map comp_def conj_commute)
  show "shallow_1_2_turns (analyze_deep_dive_index convs) =
        length (filter (\<lambda>conv. 1 \<le> user_message_count conv \<and> user_message_count conv \<le> 2) convs)"
    by (simp only: analyze_deep_dive_index_def deep_result_def deep_dive_index.simps count)
      (rule arg_cong [where f = length], rule filter_cong, auto)
  show "medium_3_9_turns (analyze_deep_dive_index convs) =
        length (filter (\<lambda>conv. 3 \<le> user_message_count conv \<and> user_message_count conv \<le> 9) convs)"
    by (simp only: analyze_deep_dive_index_def deep_result_def deep_dive_index.simps count)
      (rule arg_cong [where f = length], rule filter_cong, auto)
  show "deep_10plus_turns (analyze_deep_dive_index convs) =
        length (filter (\<lambda>conv. 10 \<le> user_message_count conv) convs)"
    by (simp only: analyze_deep_dive_index_def deep_result_def deep_dive_index.simps count)
      (rule arg_cong [where f = length], rule filter_cong, auto)
  show "analyze_deep_dive_index (filter (\<lambda>conv. 0 < user_message_count conv) convs) =
        analyze_deep_dive_index convs"
    by (simp add: analyze_deep_dive_index_def deep_loop_filter)
qed

subsection \<open>Marathon session\<close>

lemma fold_max_mem: "fold max xs (a::nat) \<in> insert a (set xs)"
  by (induction xs arbitrary: a) (auto simp: max_def)

lemma fold_max_ge: "(a::nat) \<le> fold max xs a"
proof (induction xs arbitrary: a)
  case Nil
  then show ?case by simp
next
  case (Cons x xs)
  have "max x a \<le> fold max xs (max x a)" by (rule Cons.IH)
  then show ?case by simp
qed

lemma fold_max_upper: "x \<in> set xs \<Longrightarrow> (x::nat) \<le> fold max xs a"
proof (induction xs arbitrary: a)
  case Nil
  then show ?case by simp
next
  case (Cons y ys)
  show ?case
  proof (cases "x = y")
    case True
    have "max y a \<le> fold max ys (max y a)" by (rule fold_max_ge)
    with True show ?thesis by simp
  next
    case False
    with Cons show ?thesis by simp
  qed
qed

lemma marathon_loop_eq:
  "marathon_loop convs (mx, mc) =
   (fold max (map user_message_count convs) mx,
    case find (\<lambda>conv. mx < user_message_count conv \<and>
                 user_message_count conv = fold max (map user_message_count convs) mx) convs of
      None \<Rightarrow> mc
    | Some conv \<Rightarrow> Some conv)"
proof (induction convs arbitrary: mx mc)
  case Nil
  then show ?case by simp
next
  case (Cons conv convs)
  let ?n = "user_message_count conv"
  let ?ts = "map user_message_count convs"
  show ?case
  proof (cases "mx < ?n")
    case False
    then have m: "max ?n mx = mx" by simp
    from False show ?thesis by (simp add: Cons.IH m)
  next
    case True
    then have m: "max ?n mx = ?n" by simp
    let ?M = "fold max ?ts ?n"
    show ?thesis
    proof (cases "?n = ?M")
      case same: True
      have "find (\<lambda>c. ?n < user_message_count c \<and> user_message_count c = ?M) convs = None"
        using same by (simp add: find_None_iff)
      with True same show ?thesis by (simp add: Cons.IH m)
    next
      case diff: False
      have "?M \<in> insert ?n (set ?ts)" by (rule fold_max_mem)
      with diff obtain c where c: "c \<in> set convs" "user_message_count c = ?M" by auto
      have lt: "?n < ?M" using diff fold_max_ge [of ?n ?ts] by simp
      have eq: "find (\<lambda>c. ?n < user_message_count c \<and> user_message_count c = ?M) convs =
                find (\<lambda>c. mx < user_message_count c \<and> user_message_count c = ?M) convs"
        using lt True by (intro find_cong) auto
      have "\<exists>x. x \<in> set convs \<and> ?n < user_message_count x \<and> user_message_count x = ?M"
        using c lt by (intro exI [of _ c]) simp
      then have "find (\<lambda>c. ?n < user_message_count c \<and> user_message_count c = ?M) convs \<noteq> None"
        by (simp only: find_None_iff not_not)
      then obtain c' where f1:
        "find (\<lambda>c. ?n < user_message_count c \<and> user_message_count c = ?M) convs = Some c'"
        by auto
      then have f2:
        "find (\<lambda>c. mx < user_message_count c \<and> user_message_count c = ?M) convs = Some c'"
        by (simp only: eq)
      from True diff show ?thesis by (simp add: Cons.IH m f1 f2)
    qed
  qed
qed

lemma Max_turns: "Max (set (0 # map user_message_count convs)) = fold max (map user_message_count convs) 0"
  by (rule Max.set_eq_fold)

lemma marathon_loop_first_longest:
  "marathon_loop convs (0, None) =
   (Max (set (0 # map user_message_count convs)), first_longest convs)"
  unfolding marathon_loop_eq first_longest_def Max_turns
  by (simp split: option.split)

lemma first_longest_turns:
  "first_longest convs = Some conv \<Longrightarrow>
   user_message_count conv = Max (set (0 # map user_message_count convs))"
  unfolding first_longest_def by (auto simp: find_Some_iff)

lemma first_longest_None:
  "(first_longest convs = None) = (filter (\<lambda>conv. 0 < user_message_count conv) convs = [])"
proof
  assume "filter (\<lambda>conv. 0 < user_message_count conv) convs = []"
  then show "first_longest convs = None"
    by (auto simp: first_longest_def find_None_iff filter_empty_conv)
next
  assume none: "first_longest convs = None"
  let ?M = "fold max (map user_message_count convs) 0"
  have "?M \<in> insert 0 (set (map user_message_count convs))" by (rule fold_max_mem)
  then have "?M = 0"
  proof
    assume "?M = 0" then show ?thesis .
  next
    assume "?M \<in> set (map user_message_count convs)"
    then obtain c where "c \<in> set convs" "user_message_count c = ?M" by auto
    with none show ?thesis
      by (auto simp: first_longest_def find_None_iff Max_turns simp del: set_simps list.set)
  qed
  then have "\<forall>c \<in> set convs. user_message_count c = 0"
    using fold_max_upper [of _ "map user_message_count convs" 0] by fastforce
  then show "filter (\<lambda>conv. 0 < user_message_count conv) convs = []"
    by (simp add: filter_empty_conv)
qed

text \<open>
  C7. On every archive the marathon pass reports the first conversation, in archive
  order, whose number of user turns is the maximum over the archive (so a tie keeps
  the conversation met first), and its result is null exactly when no conversation of
  the archive has a user turn.
\<close>

theorem marathon_first_maximum:
  "analyze_marathon_session h convs =
     (case first_longest convs of None \<Rightarrow> Inr None | Some conv \<Rightarrow> marathon_report h conv) \<and>
   (analyze_marathon_session h convs = Inr None) =
     (filter (\<lambda>conv. 0 < user_message_count conv) convs = [])"
proof -
  have eq: "analyze_marathon_session h convs =
     (case first_longest convs of None \<Rightarrow> Inr None | Some conv \<Rightarrow> marathon_report h conv)"
  proof (cases "first_longest convs")
    case None
    then show ?thesis
      by (simp add: analyze_marathon_session_def marathon_loop_first_longest)
  next
    case (Some conv)
    from first_longest_turns [OF Some, symmetric] Some show ?thesis
      by (simp add: analyze_marathon_session_def marathon_loop_first_longest
          marathon_report_def del: set_simps list.set split: option.split sum.split)
  qed
  have "(analyze_marathon_session h convs = Inr None) = (first_longest convs = None)"
    unfolding eq by (auto simp: marathon_report_def split: option.splits sum.splits)
  with eq show ?thesis by (simp add: first_longest_None)
qed

subsection \<open>Input/output ratio\<close>

lemma roles_exclusive: "is_user m \<Longrightarrow> \<not> is_assistant m"
  by (auto simp: is_user_def is_assistant_def ascii_def)

lemma chars_messages:
  "total_user_chars (fold (stats_message h) ms a) =
     total_user_chars a +
     sum_list (map (\<lambda>m. length (extract_text_from_message (repr h) m)) (filter is_user ms)) \<and>
   total_assistant_chars (fold (stats_message h) ms a) =
     total_assistant_chars a +
     sum_list (map (\<lambda>m. length (extract_text_from_message (repr h) m)) (filter is_assistant ms))"
proof (induction ms arbitrary: a)
  case Nil
  then show ?case by simp
next
  case (Cons m ms)
  have user: "total_user_chars (stats_message h m a) =
      total_user_chars a +
      (if is_user m then length (extract_text_from_message (repr h) m) else 0)"
    by (simp add: stats_message_def)
  have assistant: "total_assistant_chars (stats_message h m a) =
      total_assistant_chars a +
      (if is_assistant m then length (extract_text_from_message (repr h) m) else 0)"
    using roles_exclusive [of m] by (auto simp: stats_message_def)
  from Cons.IH [of "stats_message h m a"] show ?case
    by (simp add: user assistant)
qed

lemma chars_time:
  "stats_time h conv a = Inr a' \<Longrightarrow>
   total_user_chars a' = total_user_chars a \<and>
   total_assistant_chars a' = total_assistant_chars a"
  by (auto simp: stats_time_def split: option.splits sum.splits)

lemma chars_loop:
  "stats_loop h convs a = Inr a' \<Longrightarrow>
   total_user_chars a' = total_user_chars a + chars_of h is_user convs \<and>
   total_assistant_chars a' = total_assistant_chars a + chars_of h is_assistant convs"
proof (induction convs arbitrary: a)
  case Nil
  then show ?case by (simp add: chars_of_def)
next
  case (Cons conv convs)
  from Cons.prems obtain a1 where a1: "stats_time h conv a = Inr a1"
    and rest: "stats_loop h convs (fold (stats_message h) (messages_of conv) a1) = Inr a'"
    by (auto split: sum.splits)
  from Cons.IH [OF rest] chars_time [OF a1] chars_messages [of h "messages_of conv" a1]
  show ?case by (simp add: chars_of_def)
qed

lemma summary_chars:
  assumes "analyze_summary_stats h convs = Inr ss"
  shows "total_user_characters ss = chars_of h is_user convs"
    and "total_assistant_characters ss = chars_of h is_assistant convs"
proof -
  from assms obtain a where a: "stats_loop h convs stats_acc0 = Inr a"
    and ss: "ss = stats_result (length convs) a"
    by (auto simp: analyze_summary_stats_def split: sum.splits)
  from chars_loop [OF a] show "total_user_characters ss = chars_of h is_user convs"
    and "total_assistant_characters ss = chars_of h is_assistant convs"
    by (simp_all add: ss stats_result_def stats_acc0_def)
qed

lemma stats_loop_returns:
  "\<not> list_ex (time_fails h) convs \<Longrightarrow> \<exists>a'. stats_loop h convs a = Inr a'"
proof (induction convs arbitrary: a)
  case Nil
  then show ?case by simp
next
  case (Cons conv convs)
  from Cons.prems have "\<exists>a1. stats_time h conv a = Inr a1"
    by (auto simp: time_fails_def stats_time_def split: option.splits sum.splits)
  then obtain a1 where a1: "stats_time h conv a = Inr a1" by blast
  from Cons.prems have "\<not> list_ex (time_fails h) convs" by simp
  from Cons.IH [OF this, of "fold (stats_message h) (messages_of conv) a1"] a1
  show ?case by simp
qed

lemma summary_stats_returns:
  "\<not> list_ex (time_fails h) convs \<Longrightarrow> \<exists>ss. analyze_summary_stats h convs = Inr ss"
  using stats_loop_returns [of h convs stats_acc0]
  by (auto simp: analyze_summary_stats_def)

lemma messages_tie:
  "messages_of (hd tie_archive) =
   [text_message ''user'' (replicate 40 97), text_message ''assistant'' (replicate 107 98)]"
  by (simp add: tie_archive_def bare_def messages_of_def text_node_def List.map_filter_def
      ascii_def)

lemma messages_assistant_only:
  "messages_of (hd assistant_only) = [text_message ''assistant'' [20320, 22909]]"
  by (simp add: assistant_only_def bare_def messages_of_def text_node_def List.map_filter_def
      ascii_def)

lemma chars_tie:
  "chars_of h is_user tie_archive = 40" "chars_of h is_assistant tie_archive = 107"
proof -
  have arch: "tie_archive = [hd tie_archive]" by (simp add: tie_archive_def)
  have "chars_of h is_user [hd tie_archive] = 40"
    by (simp add: chars_of_def messages_tie) (simp add: ascii_def)
  then show "chars_of h is_user tie_archive = 40" using arch by simp
  have "chars_of h is_assistant [hd tie_archive] = 107"
    by (simp add: chars_of_def messages_tie) (simp add: ascii_def)
  then show "chars_of h is_assistant tie_archive = 107" using arch by simp
qed

lemma chars_assistant_only: "chars_of h is_user assistant_only = 0"
proof -
  have arch: "assistant_only = [hd assistant_only]" by (simp add: assistant_only_def)
  have "chars_of h is_user [hd assistant_only] = 0"
    by (simp add: chars_of_def messages_assistant_only) (simp add: ascii_def)
  then show ?thesis using arch by simp
qed

lemma utc_converts:
  "\<not> list_ex (time_fails utc_host) tie_archive"
  "\<not> list_ex (time_fails utc_host) assistant_only"
  by (simp_all add: tie_archive_def assistant_only_def bare_def time_fails_def utc_ok)

text \<open>
  C6. On every archive for which pass 1 returns, the ratio pass returns without
  error. Its two counts are the user characters and the assistant characters of the
  archive; its ratio is their float quotient, assistant by user, rounded to two
  decimals when there are user characters, and 0 when there are none; the label is the
  learner one exactly when the ratio is at least 8, the balanced one exactly from 3 up
  to 8, the creator one exactly below 3; with no user characters the ratio is 0 and
  the label is the creator one. For 40 user and 107 assistant characters the quotient
  is the double just below 2.675 and the ratio is 2.67.
\<close>

theorem ratio_law:
  assumes "analyze_summary_stats h convs = Inr ss"
  shows "\<exists>r. analyze_directors_ratio (Some ss) = Inr r \<and>
     input_chars r = chars_of h is_user convs \<and>
     output_chars r = chars_of h is_assistant convs \<and>
     ratio r =
       (if 0 < chars_of h is_user convs
        then py_round 2
               (float_div (real (chars_of h is_assistant convs)) (real (chars_of h is_user convs)))
        else 0) \<and>
     (persona_type r = Learner) = (8 \<le> ratio r) \<and>
     (persona_type r = Balanced) = (3 \<le> ratio r \<and> ratio r < 8) \<and>
     (persona_type r = Creator) = (ratio r < 3) \<and>
     (chars_of h is_user convs = 0 \<longrightarrow> ratio r = 0 \<and> persona_type r = Creator)"
proof -
  let ?r = "\<lparr>input_chars = total_user_characters ss,
             output_chars = total_assistant_characters ss,
             ratio = ratio_of (total_user_characters ss) (total_assistant_characters ss),
             persona_type =
               persona_of (ratio_of (total_user_characters ss) (total_assistant_characters ss))\<rparr>"
  have returns: "analyze_directors_ratio (Some ss) = Inr ?r"
    by (simp add: analyze_directors_ratio_def)
  have u: "total_user_characters ss = chars_of h is_user convs"
    and a: "total_assistant_characters ss = chars_of h is_assistant convs"
    using summary_chars [OF assms] by simp_all
  have props: "input_chars ?r = chars_of h is_user convs \<and>
     output_chars ?r = chars_of h is_assistant convs \<and>
     ratio ?r =
       (if 0 < chars_of h is_user convs
        then py_round 2
               (float_div (real (chars_of h is_assistant convs)) (real (chars_of h is_user convs)))
        else 0) \<and>
     (persona_type ?r = Learner) = (8 \<le> ratio ?r) \<and>
     (persona_type ?r = Balanced) = (3 \<le> ratio ?r \<and> ratio ?r < 8) \<and>
     (persona_type ?r = Creator) = (ratio ?r < 3) \<and>
     (chars_of h is_user convs = 0 \<longrightarrow> ratio ?r = 0 \<and> persona_type ?r = Creator)"
    by (simp add: u a ratio_of_def persona_of_def)
  show ?thesis
    by (rule exI [of _ ?r]) (rule conjI [OF returns props])
qed

theorem ratio_law_witness:
  "(\<exists>ss r. analyze_summary_stats utc_host tie_archive = Inr ss \<and>
      analyze_directors_ratio (Some ss) = Inr r \<and>
      input_chars r = 40 \<and> output_chars r = 107 \<and>
      ratio r = 267 / 100 \<and> persona_type r = Creator) \<and>
   (\<exists>ss r. analyze_summary_stats utc_host assistant_only = Inr ss \<and>
      chars_of utc_host is_user assistant_only = 0 \<and>
      analyze_directors_ratio (Some ss) = Inr r \<and>
      ratio r = 0 \<and> persona_type r = Creator)"
proof (rule conjI)
  from summary_stats_returns [OF utc_converts(1)] obtain ss where
    ss: "analyze_summary_stats utc_host tie_archive = Inr ss" by blast
  have tie: "py_round 2 (float_div 107 40) = 267 / 100"
    by (simp add: float_eval)
  from ratio_law [OF ss] obtain r where r: "analyze_directors_ratio (Some ss) = Inr r"
    "input_chars r = chars_of utc_host is_user tie_archive"
    "output_chars r = chars_of utc_host is_assistant tie_archive"
    "ratio r =
       (if 0 < chars_of utc_host is_user tie_archive
        then py_round 2
               (float_div (real (chars_of utc_host is_assistant tie_archive))
                  (real (chars_of utc_host is_user tie_archive)))
        else 0)"
    "(persona_type r = Creator) = (ratio r < 3)"
    by (elim exE conjE) (rule that; assumption)
  from r(4) have ratio: "ratio r = 267 / 100" by (simp add: chars_tie tie)
  with r(5) have "persona_type r = Creator" by simp
  with ss r(1) r(2) r(3) ratio
  show "\<exists>ss r. analyze_summary_stats utc_host tie_archive = Inr ss \<and>
      analyze_directors_ratio (Some ss) = Inr r \<and>
      input_chars r = 40 \<and> output_chars r = 107 \<and>
      ratio r = 267 / 100 \<and> persona_type r = Creator"
    by (simp add: chars_tie)
next
  from summary_stats_returns [OF utc_converts(2)] obtain ss where
    ss: "analyze_summary_stats utc_host assistant_only = Inr ss" by blast
  from ratio_law [OF ss] obtain r where r: "analyze_directors_ratio (Some ss) = Inr r"
    "chars_of utc_host is_user assistant_only = 0 \<longrightarrow> ratio r = 0 \<and> persona_type r = Creator"
    by (elim exE conjE) (rule that; assumption)
  with ss chars_assistant_only [of utc_host]
  show "\<exists>ss r. analyze_summary_stats utc_host assistant_only = Inr ss \<and>
      chars_of utc_host is_user assistant_only = 0 \<and>
      analyze_directors_ratio (Some ss) = Inr r \<and>
      ratio r = 0 \<and> persona_type r = Creator"
    by simp
qed


subsection \<open>Scenario A\<close>

lemma messages_scenario_A:
  "messages_of (hd (scenario_A t)) =
   [text_message ''user'' scenario_A_text, text_message ''assistant'' [20320, 22909]]"
  by (simp add: scenario_A_def messages_of_def text_node_def List.map_filter_def ascii_def)

lemma stats_scenario_A:
  assumes "fromtimestamp h t = Inr dt"
  shows "\<exists>a. stats_loop h (scenario_A t) stats_acc0 = Inr a \<and> n_messages a = 1 \<and>
           total_user_chars a = 11 \<and> total_assistant_chars a = 2"
proof -
  have conv: "scenario_A t = [hd (scenario_A t)]" by (simp add: scenario_A_def)
  have ct: "create_time (hd (scenario_A u)) = Num u" for u by (simp add: scenario_A_def)
  have len: "length scenario_A_text = 11" by (simp add: scenario_A_text_def ascii_def)
  have "\<exists>a'. stats_time h (hd (scenario_A t)) stats_acc0 = Inr a' \<and>
          n_messages a' = 0 \<and> total_user_chars a' = 0 \<and> total_assistant_chars a' = 0"
    using assms by (cases "t = 0") (simp_all add: stats_time_def ct stats_acc0_def)
  then obtain a' where a': "stats_time h (hd (scenario_A t)) stats_acc0 = Inr a'"
    "n_messages a' = 0" "total_user_chars a' = 0" "total_assistant_chars a' = 0"
    by blast
  have "stats_loop h [hd (scenario_A t)] stats_acc0 =
        Inr (fold (stats_message h) (messages_of (hd (scenario_A t))) a')"
    by (simp add: a')
  with conv have "stats_loop h (scenario_A t) stats_acc0 =
        Inr (fold (stats_message h) (messages_of (hd (scenario_A t))) a')"
    by simp
  moreover have "n_messages (fold (stats_message h) (messages_of (hd (scenario_A t))) a') = 1 \<and>
    total_user_chars (fold (stats_message h) (messages_of (hd (scenario_A t))) a') = 11 \<and>
    total_assistant_chars (fold (stats_message h) (messages_of (hd (scenario_A t))) a') = 2"
    by (simp add: messages_scenario_A stats_message_def a' len) (simp add: ascii_def)
  ultimately show ?thesis by blast
qed

lemma polite_scenario_A:
  assumes "lower h scenario_A_text = scenario_A_text"
  shows "polite_loop h (scenario_A t) =
         \<lparr>pc_please = 1, pc_thank_you = 1, pc_help = 1, pc_total_messages = 1\<rparr>"
proof -
  have conv: "scenario_A t = [hd (scenario_A t)]" by (simp add: scenario_A_def)
  have pt: "polite_text scenario_A_text
                \<lparr>pc_please = 0, pc_thank_you = 0, pc_help = 0, pc_total_messages = 0\<rparr> =
              \<lparr>pc_please = 1, pc_thank_you = 1, pc_help = 1, pc_total_messages = 1\<rparr>"
    by (simp add: polite_text_def scenario_A_text_def ascii_def incr_if_def)
  have "polite_loop h [hd (scenario_A t)] =
        \<lparr>pc_please = 1, pc_thank_you = 1, pc_help = 1, pc_total_messages = 1\<rparr>"
    by (simp add: polite_loop_def messages_scenario_A polite_message_def assms pt)
      (simp add: ascii_def)
  with conv show ?thesis by simp
qed

lemma utc_lower_A: "lower utc_host scenario_A_text = scenario_A_text"
  by (simp add: utc_host_def ascii_lower_def scenario_A_text_def ascii_def)

text \<open>
  C1, as the code has it. For the archive of scenario A, on every host that converts
  the timestamp and whose \<^verbatim>\<open>lower\<close> leaves the user text unchanged, the report has
  1 conversation, 1 message, 11 user characters (the text has eleven code points: three
  CJK characters, a comma, a space and the six letters of ``thanks''), 2 assistant
  characters, the three politeness counters at 1, the ratio round(2/11, 2) = 0.18 and
  the creator label.
\<close>

theorem scenario_A_report:
  assumes "fromtimestamp h t = Inr dt" and "lower h scenario_A_text = scenario_A_text"
  shows "\<exists>ss dr. analyze_summary_stats h (scenario_A t) = Inr ss \<and>
           summary_stats.total_conversations ss = 1 \<and>
           summary_stats.total_messages ss = 1 \<and>
           total_user_characters ss = 11 \<and>
           total_assistant_characters ss = 2 \<and>
           please_count (analyze_politeness_score h (scenario_A t)) = 1 \<and>
           help_count (analyze_politeness_score h (scenario_A t)) = 1 \<and>
           thank_you_count (analyze_politeness_score h (scenario_A t)) = 1 \<and>
           analyze_directors_ratio (Some ss) = Inr dr \<and>
           ratio dr = 18 / 100 \<and>
           persona_type dr = Creator"
proof -
  from stats_scenario_A [OF assms(1)] obtain a where
    a: "stats_loop h (scenario_A t) stats_acc0 = Inr a" "n_messages a = 1"
       "total_user_chars a = 11" "total_assistant_chars a = 2"
    by blast
  have n: "length (scenario_A t) = 1" by (simp add: scenario_A_def)
  have ss: "analyze_summary_stats h (scenario_A t) = Inr (stats_result 1 a)"
    by (simp add: analyze_summary_stats_def a n)
  have r: "ratio_of 11 2 = 18 / 100"
    by (simp add: ratio_of_def float_eval)
  have dr: "\<exists>dr. analyze_directors_ratio (Some (stats_result 1 a)) = Inr dr \<and>
              ratio dr = 18 / 100 \<and> persona_type dr = Creator"
    by (simp add: analyze_directors_ratio_def stats_result_def a r persona_of_def)
  have pol: "please_count (analyze_politeness_score h (scenario_A t)) = 1 \<and>
             help_count (analyze_politeness_score h (scenario_A t)) = 1 \<and>
             thank_you_count (analyze_politeness_score h (scenario_A t)) = 1"
    by (simp add: analyze_politeness_score_def polite_scenario_A [OF assms(2)] polite_result_def)
  have fields: "summary_stats.total_conversations (stats_result 1 a) = 1 \<and>
                summary_stats.total_messages (stats_result 1 a) = 1 \<and>
                total_user_characters (stats_result 1 a) = 11 \<and>
                total_assistant_characters (stats_result 1 a) = 2"
    by (simp add: stats_result_def a)
  from ss dr pol fields show ?thesis by blast
qed

theorem scenario_A_report_witness:
  "fromtimestamp utc_host 1700000000 = Inr (Datetime 1700000000) \<and>
   lower utc_host scenario_A_text = scenario_A_text \<and>
   (\<exists>ss dr. analyze_summary_stats utc_host (scenario_A 1700000000) = Inr ss \<and>
      total_user_characters ss = 11 \<and>
      please_count (analyze_politeness_score utc_host (scenario_A 1700000000)) = 1 \<and>
      analyze_directors_ratio (Some ss) = Inr dr \<and> ratio dr = 18 / 100)"
  using scenario_A_report [OF utc_ok utc_lower_A] utc_ok utc_lower_A by blast

text \<open>
  C1 as stated gives 14 user characters and the ratio 0.14. On the UTC host the user
  text has 11 code points, the pass does not report 14 and the ratio is not 0.14.
\<close>

theorem scenario_A_counterexample:
  "length scenario_A_text = 11 \<and>
   map_sum id total_user_characters (analyze_summary_stats utc_host (scenario_A 1700000000)) \<noteq> Inr 14 \<and>
   map_sum id ratio
     (and_then (analyze_summary_stats utc_host (scenario_A 1700000000))
        (\<lambda>ss. analyze_directors_ratio (Some ss))) \<noteq> Inr (14 / 100)"
proof -
  from stats_scenario_A [OF utc_ok] obtain a where
    a: "stats_loop utc_host (scenario_A 1700000000) stats_acc0 = Inr a" "n_messages a = 1"
       "total_user_chars a = 11" "total_assistant_chars a = 2"
    by blast
  have r: "ratio_of 11 2 = 18 / 100"
    by (simp add: ratio_of_def float_eval)
  have "length scenario_A_text = 11" by (simp add: scenario_A_text_def ascii_def)
  moreover have "map_sum id total_user_characters
      (analyze_summary_stats utc_host (scenario_A 1700000000)) = Inr 11"
    by (simp add: analyze_summary_stats_def a stats_result_def)
  moreover have "map_sum id ratio
     (and_then (analyze_summary_stats utc_host (scenario_A 1700000000))
        (\<lambda>ss. analyze_directors_ratio (Some ss))) = Inr (18 / 100)"
    by (simp add: analyze_summary_stats_def a stats_result_def analyze_directors_ratio_def r)
  ultimately show ?thesis by simp
qed

subsection \<open>Politeness\<close>

text \<open>
  C9. The English test and the Chinese test of one category are two separate
  \<^verbatim>\<open>if\<close> statements: a user message whose lower-cased text matches both adds 2 to
  the counter of the category, for each of the three categories. So the sum of the
  counters can exceed the number of messages and the percentage can exceed 100: for the
  archive of the single user message ``Please'' followed by a space and U+8BF7, the
  sum is 2 for 1 message and the percentage is 200.
\<close>

theorem politeness_double_count:
  "(is_user m \<and>
    py_in (ascii ''please'') (lower h (extract_text_from_message (repr h) m)) \<and>
    py_in [35831] (lower h (extract_text_from_message (repr h) m)) \<longrightarrow>
    pc_please (polite_message h m pc) = pc_please pc + 2) \<and>
   (is_user m \<and>
    (py_in (ascii ''thank you'') (lower h (extract_text_from_message (repr h) m)) \<or>
     py_in (ascii ''thanks'') (lower h (extract_text_from_message (repr h) m))) \<and>
    (py_in [35874, 35874] (lower h (extract_text_from_message (repr h) m)) \<or>
     py_in [24863, 35874] (lower h (extract_text_from_message (repr h) m))) \<longrightarrow>
    pc_thank_you (polite_message h m pc) = pc_thank_you pc + 2) \<and>
   (is_user m \<and>
    py_in (ascii ''help'') (lower h (extract_text_from_message (repr h) m)) \<and>
    (py_in [24110, 24537] (lower h (extract_text_from_message (repr h) m)) \<or>
     py_in [24110] (lower h (extract_text_from_message (repr h) m)) \<or>
     py_in [25937, 21629] (lower h (extract_text_from_message (repr h) m))) \<longrightarrow>
    pc_help (polite_message h m pc) = pc_help pc + 2) \<and>
   total_polite_usage (analyze_politeness_score utc_host polite_archive) = 2 \<and>
   politeness_score.total_messages (analyze_politeness_score utc_host polite_archive) = 1 \<and>
   politeness_percentage (analyze_politeness_score utc_host polite_archive) = 200"
proof -
  have msgs: "messages_of (hd polite_archive) = [polite_twice]"
    by (simp add: polite_archive_def bare_def messages_of_def List.map_filter_def ascii_def)
  have arch: "polite_archive = [hd polite_archive]" by (simp add: polite_archive_def)
  have user: "is_user polite_twice"
    by (simp add: polite_twice_def is_user_def get_role_def text_message_def)
  have low: "lower utc_host (extract_text_from_message (repr utc_host) polite_twice) =
             ascii ''please '' @ [35831]"
    by (simp add: polite_twice_def text_message_def extract_text_from_message_def
        utc_host_def ascii_lower_def ascii_def)
  have step: "polite_text (ascii ''please '' @ [35831]) no_counts =
              \<lparr>pc_please = 2, pc_thank_you = 0, pc_help = 0, pc_total_messages = 1\<rparr>"
    by (simp add: polite_text_def no_counts_def incr_if_def ascii_def)
  have "polite_loop utc_host [hd polite_archive] =
        \<lparr>pc_please = 2, pc_thank_you = 0, pc_help = 0, pc_total_messages = 1\<rparr>"
    by (simp add: polite_loop_def msgs polite_message_def user low
        step [unfolded no_counts_def])
  with arch have loop: "polite_loop utc_host polite_archive =
        \<lparr>pc_please = 2, pc_thank_you = 0, pc_help = 0, pc_total_messages = 1\<rparr>"
    by simp
  have demo: "total_polite_usage (analyze_politeness_score utc_host polite_archive) = 2 \<and>
    politeness_score.total_messages (analyze_politeness_score utc_host polite_archive) = 1 \<and>
    politeness_percentage (analyze_politeness_score utc_host polite_archive) = 200"
    by (simp add: analyze_politeness_score_def loop polite_result_def percentage_of_def
        float_eval)
  have general: "pc_please (polite_text t pc) =
      incr_if (py_in [35831] t) (incr_if (py_in (ascii ''please'') t) (pc_please pc))"
    "pc_thank_you (polite_text t pc) =
      incr_if (py_in [35874, 35874] t \<or> py_in [24863, 35874] t)
        (incr_if (py_in (ascii ''thank you'') t \<or> py_in (ascii ''thanks'') t) (pc_thank_you pc))"
    "pc_help (polite_text t pc) =
      incr_if (py_in [24110, 24537] t \<or> py_in [24110] t \<or> py_in [25937, 21629] t)
        (incr_if (py_in (ascii ''help'') t) (pc_help pc))" for t
    by (simp_all add: polite_text_def)
  show ?thesis
    using demo by (auto simp: polite_message_def general incr_if_def)
qed

theorem politeness_double_count_witness:
  "is_user polite_twice \<and>
   py_in (ascii ''please'') (lower utc_host (extract_text_from_message (repr utc_host) polite_twice)) \<and>
   py_in [35831] (lower utc_host (extract_text_from_message (repr utc_host) polite_twice)) \<and>
   pc_please (polite_message utc_host polite_twice no_counts) = 2"
proof -
  have user: "is_user polite_twice"
    by (simp add: polite_twice_def is_user_def get_role_def text_message_def)
  have low: "lower utc_host (extract_text_from_message (repr utc_host) polite_twice) =
             ascii ''please '' @ [35831]"
    by (simp add: polite_twice_def text_message_def extract_text_from_message_def
        utc_host_def ascii_lower_def ascii_def)
  have en: "py_in (ascii ''please'') (ascii ''please '' @ [35831])"
    by (simp add: ascii_def)
  have zh: "py_in [35831] (ascii ''please '' @ [35831])"
    by (simp add: ascii_def)
  from politeness_double_count [of polite_twice utc_host no_counts] user en zh
  show ?thesis by (simp add: low no_counts_def)
qed

subsection \<open>Monthly focus\<close>

lemmas civil_defs =
  month_key_def dt_date_def dt_days_def civil_from_days_def civil_of_era_def civil_year_def
  civil_day_def civil_month_def month_index_def day_of_year_def year_of_era_def

lemma date_nov_14: "dt_date (Datetime 1700000000) = (2023, 11, 14)"
  by (simp add: civil_defs)

lemma date_nov_15: "dt_date (Datetime 1700086400) = (2023, 11, 15)"
  by (simp add: civil_defs)

lemma fold_append_text_same:
  "fold (append_text k) xs [(k, ys)] = [(k, ys @ xs)]"
  by (induction xs arbitrary: ys) simp_all

lemma fold_append_text_empty:
  "fold (append_text k) xs [] = (if xs = [] then [] else [(k, xs)])"
  by (cases xs) (simp_all add: fold_append_text_same)

lemma fold_append_text_twice:
  "xs @ ys \<noteq> [] \<Longrightarrow>
   fold (append_text k) ys (fold (append_text k) xs []) = [(k, xs @ ys)]"
  by (cases "xs = []") (simp_all add: fold_append_text_empty fold_append_text_same)

lemma user_texts_spoken:
  "user_texts utc_host (hd spoken_month) = [ascii ''hi'']"
  by (simp add: spoken_month_def bare_def user_texts_def messages_of_def List.map_filter_def
      text_node_def text_message_def is_user_def get_role_def extract_text_from_message_def
      utc_host_def ascii_def)

text \<open>
  C8, as the code has it. For every archive of exactly two conversations whose
  timestamps are not zero, are converted by the host and fall in the same (year,
  month), whose conversation ids differ, and of which at least one has a user message
  with a non-empty text, the monthly-focus output is exactly one entry, for that
  month, with \<^verbatim>\<open>conversation_count\<close> 2.
\<close>

theorem same_month_single_entry:
  assumes "create_time c1 = Num t1" and "create_time c2 = Num t2"
    and "t1 \<noteq> 0" and "t2 \<noteq> 0"
    and "fromtimestamp h t1 = Inr d1" and "fromtimestamp h t2 = Inr d2"
    and "month_key d1 = month_key d2"
    and "conversation_id c1 \<noteq> conversation_id c2"
    and "user_texts h c1 @ user_texts h c2 \<noteq> []"
  shows "\<exists>e. analyze_monthly_focus h [c1, c2] = Inr [e] \<and>
           month e = month_key d1 \<and> conversation_count e = 2"
proof -
  let ?k = "month_key d1"
  let ?texts = "user_texts h c1 @ user_texts h c2"
  have grouping: "monthly_texts h [c1, c2] [] = Inr [(?k, ?texts)]"
    using assms by (simp add: fold_append_text_twice)
  have ids: "month_ids h ?k [c1, c2] = Inr [conversation_id c1, conversation_id c2]"
    using assms by simp
  have topics: "monthly_topics h [c1, c2] [(?k, ?texts)] =
        Inr [\<lparr>month = ?k,
              top_keywords = take 3 (month_keywords h (join (ascii '' '') ?texts)),
              conversation_count = 2\<rparr>]"
    using assms(8) by (simp add: ids del: month_ids.simps)
  have "analyze_monthly_focus h [c1, c2] =
        Inr [\<lparr>month = ?k,
              top_keywords = take 3 (month_keywords h (join (ascii '' '') ?texts)),
              conversation_count = 2\<rparr>]"
    unfolding analyze_monthly_focus_def grouping
    by (simp add: topics del: monthly_topics.simps)
  then show ?thesis by simp
qed

theorem same_month_single_entry_witness:
  "create_time (hd spoken_month) = Num 1700000000 \<and>
   create_time (hd (tl spoken_month)) = Num 1700086400 \<and>
   fromtimestamp utc_host 1700000000 = Inr (Datetime 1700000000) \<and>
   fromtimestamp utc_host 1700086400 = Inr (Datetime 1700086400) \<and>
   month_key (Datetime 1700000000) = month_key (Datetime 1700086400) \<and>
   conversation_id (hd spoken_month) \<noteq> conversation_id (hd (tl spoken_month)) \<and>
   user_texts utc_host (hd spoken_month) @ user_texts utc_host (hd (tl spoken_month)) \<noteq> [] \<and>
   (\<exists>e. analyze_monthly_focus utc_host spoken_month = Inr [e] \<and>
        month e = (2023, 11) \<and> conversation_count e = 2)"
proof -
  have c1: "create_time (hd spoken_month) = Num 1700000000"
    and c2: "create_time (hd (tl spoken_month)) = Num 1700086400"
    by (simp_all add: spoken_month_def bare_def)
  have f1: "fromtimestamp utc_host 1700000000 = Inr (Datetime 1700000000)"
    and f2: "fromtimestamp utc_host 1700086400 = Inr (Datetime 1700086400)"
    by (rule utc_ok, rule utc_ok_next)
  have k1: "month_key (Datetime 1700000000) = (2023, 11)"
    by (simp add: month_key_def date_nov_14)
  have k2: "month_key (Datetime 1700086400) = (2023, 11)"
    by (simp add: month_key_def date_nov_15)
  have k: "month_key (Datetime 1700000000) = month_key (Datetime 1700086400)"
    by (simp only: k1 k2)
  have ids: "conversation_id (hd spoken_month) \<noteq> conversation_id (hd (tl spoken_month))"
    by (simp add: spoken_month_def bare_def ascii_def)
  have texts: "user_texts utc_host (hd spoken_month) @
               user_texts utc_host (hd (tl spoken_month)) \<noteq> []"
    by (simp add: user_texts_spoken)
  have arch: "spoken_month = [hd spoken_month, hd (tl spoken_month)]"
    by (simp add: spoken_month_def)
  have nz: "(1700000000::real) \<noteq> 0" "(1700086400::real) \<noteq> 0" by simp_all
  from same_month_single_entry [OF c1 c2 nz f1 f2 k ids texts]
  have "\<exists>e. analyze_monthly_focus utc_host spoken_month = Inr [e] \<and>
          month e = (2023, 11) \<and> conversation_count e = 2"
    by (simp only: arch [symmetric] k1)
  with c1 c2 f1 f2 k ids texts show ?thesis by blast
qed

text \<open>
  C8 as stated asks for one entry for any two conversations of one month. Two
  conversations created on 14 and 15 November 2023 at the same time of day, neither
  with a user message, give no entry at all: a month enters \<^verbatim>\<open>monthly_texts\<close> only
  when a text is appended to it.
\<close>

theorem same_month_counterexample:
  "map create_time silent_month = [Num 1700000000, Num 1700086400] \<and>
   dt_date (Datetime 1700000000) = (2023, 11, 14) \<and>
   dt_date (Datetime 1700086400) = (2023, 11, 15) \<and>
   analyze_monthly_focus utc_host silent_month = Inr []"
proof -
  have "user_texts utc_host (bare cid ct []) = []" for cid ct
    by (simp add: user_texts_def bare_def messages_of_def List.map_filter_def)
  then have "monthly_texts utc_host silent_month [] = Inr []"
    by (simp add: silent_month_def utc_ok utc_ok_next bare_def)
  then have "analyze_monthly_focus utc_host silent_month = Inr []"
    by (simp add: analyze_monthly_focus_def)
  moreover have "map create_time silent_month = [Num 1700000000, Num 1700086400]"
    by (simp add: silent_month_def bare_def)
  ultimately show ?thesis by (simp add: date_nov_14 date_nov_15)
qed

subsection \<open>A null timestamp\<close>

lemma and_then_isl: "(\<And>v. isl (f v)) \<Longrightarrow> isl (and_then x f)"
  by (cases x) simp_all

lemma and_then_Inl: "x = Inl e \<Longrightarrow> isl (and_then x f)"
  by simp

text \<open>
  C2 on the code. The count of the conversations of a month calls
  \<^verbatim>\<open>datetime.fromtimestamp(conv.get("create_time", 0))\<close> on every conversation of the
  archive: the default covers a missing key, not a key whose value is null. For the
  archive of a conversation created on 14 November 2023 with the user message ``hi''
  and a conversation whose \<^verbatim>\<open>create_time\<close> is null, the monthly-focus pass raises
  \<^verbatim>\<open>TypeError\<close>, and the run of the passes ends with an exception whatever the keyword,
  language and badge passes do.
\<close>

theorem null_timestamp_aborts_run:
  "analyze_monthly_focus utc_host null_time_archive = Inl TypeError \<and>
   isl (run_all_analyses utc_host kw lp pb null_time_archive)"
proof -
  have texts: "user_texts utc_host (hd null_time_archive) = [ascii ''hi'']"
    by (simp add: null_time_archive_def bare_def user_texts_def messages_of_def
      List.map_filter_def text_node_def text_message_def is_user_def get_role_def
      extract_text_from_message_def utc_host_def ascii_def)
  have arch: "null_time_archive = [hd null_time_archive, bare ''c2'' Null []]"
    by (simp add: null_time_archive_def)
  have c1: "create_time (hd null_time_archive) = Num 1700000000"
    by (simp add: null_time_archive_def bare_def)
  have f1: "fromtimestamp utc_host 1700000000 = Inr (Datetime 1700000000)"
    by (rule utc_ok)
  have null: "create_time (bare ''c2'' Null []) = Null" by (simp add: bare_def)
  have "monthly_texts utc_host [hd null_time_archive, bare ''c2'' Null []] [] =
        Inr [(month_key (Datetime 1700000000), [ascii ''hi''])]"
    by (simp add: c1 f1 null texts)
  moreover have "month_ids utc_host k [hd null_time_archive, bare ''c2'' Null []] = Inl TypeError"
    for k
    by (simp add: c1 f1 null)
  ultimately have "analyze_monthly_focus utc_host
      [hd null_time_archive, bare ''c2'' Null []] = Inl TypeError"
    by (simp add: analyze_monthly_focus_def)
  with arch have fails: "analyze_monthly_focus utc_host null_time_archive = Inl TypeError"
    by simp
  have "isl (run_all_analyses utc_host kw lp pb null_time_archive)"
    unfolding run_all_analyses_def
    by (rule and_then_isl, rule and_then_isl, rule and_then_isl, rule and_then_isl,
        rule and_then_isl, rule and_then_isl, rule and_then_Inl, rule fails)
  with fails show ?thesis by simp
qed

end
